theory Spec2Isabelle
  imports Complex_Main "HOL-Library.Log_Nat"
begin

section \<open>Strings\<close>

text \<open>
  Python strings are modelled as \<open>string\<close>, a list of characters with code points
  below 256. The source uses \<open>str.lower()\<close>, the regular-expression classes \<open>\d\<close>
  and \<open>\s\<close> and the substring test \<open>in\<close>; they are written out here as Python
  defines them on these code points: \<open>lower\<close> moves A to Z and the upper-case
  letters from U+00C0 to U+00DE (all but the multiplication sign U+00D7) 32 places
  up, \<open>\d\<close> matches the ten digits, and \<open>\s\<close> matches the characters 9 to 13,
  28 to 32, U+0085 and U+00A0.
\<close>

definition lower_char :: "char \<Rightarrow> char" where
  "lower_char c =
     (let n = (of_char c :: nat) in
      if (65 \<le> n \<and> n \<le> 90) \<or> (192 \<le> n \<and> n \<le> 214) \<or> (216 \<le> n \<and> n \<le> 222)
      then char_of (n + 32) else c)"

definition lower :: "string \<Rightarrow> string" where
  "lower s = map lower_char s"

definition is_digit :: "char \<Rightarrow> bool" where
  "is_digit c = (let n = (of_char c :: nat) in 48 \<le> n \<and> n \<le> 57)"

definition is_space :: "char \<Rightarrow> bool" where
  "is_space c =
     ((of_char c :: nat) \<in> set [9, 10, 11, 12, 13, 28, 29, 30, 31, 32, 133, 160])"

definition starts_with :: "string \<Rightarrow> string \<Rightarrow> bool" where
  "starts_with sub s = (take (length sub) s = sub)"

text \<open>\<open>sub in s\<close> of Python: \<open>sub\<close> occurs in \<open>s\<close> as a contiguous substring.\<close>

fun is_in :: "string \<Rightarrow> string \<Rightarrow> bool" where
  "is_in sub [] = (sub = [])"
| "is_in sub (c # cs) = (starts_with sub (c # cs) \<or> is_in sub cs)"

section \<open>TokenMatcher\<close>

subsection \<open>The three size patterns\<close>

text \<open>
  Every size pattern of \<open>extract_tokens\<close> holds the group \<open>(\d+\.?\d*)\<close>. All its
  quantifiers are greedy, and no shorter choice can make the rest of a pattern match
  (the character after a shorter number is a digit or a dot, which none of the three
  patterns accepts next), so a match attempt at a position is the greedy one.
  A matcher returns the captured group and the text after the match.
\<close>

type_synonym matcher = "string \<Rightarrow> (string \<times> string) option"

definition match_number :: matcher where
  "match_number s =
     (let d1 = takeWhile is_digit s; r1 = dropWhile is_digit s in
      if d1 = [] then None
      else (case r1 of
              [] \<Rightarrow> Some (d1, [])
            | c # r2 \<Rightarrow>
                if c = CHR ''.''
                then Some (d1 @ [c] @ takeWhile is_digit r2, dropWhile is_digit r2)
                else Some (d1, r1)))"

text \<open>\<open>(\d+\.?\d*)\s*mm\<close>, with \<open>re.IGNORECASE\<close>.\<close>

definition match_mm :: matcher where
  "match_mm s =
     (case match_number s of
        None \<Rightarrow> None
      | Some (g, r) \<Rightarrow>
          (case dropWhile is_space r of
             a # b # r' \<Rightarrow>
               if lower_char a = CHR ''m'' \<and> lower_char b = CHR ''m'' then Some (g, r')
               else None
           | _ \<Rightarrow> None))"

text \<open>\<open>(\d+\.?\d*)\s*"\<close>.\<close>

definition match_inch :: matcher where
  "match_inch s =
     (case match_number s of
        None \<Rightarrow> None
      | Some (g, r) \<Rightarrow>
          (case dropWhile is_space r of
             a # r' \<Rightarrow> if a = CHR 0x22 then Some (g, r') else None
           | [] \<Rightarrow> None))"

text \<open>\<open>\((\d+\.?\d*)\)\<close>.\<close>

definition match_paren :: matcher where
  "match_paren s =
     (case s of
        [] \<Rightarrow> None
      | c # s' \<Rightarrow>
          if c = CHR ''(''
          then (case match_number s' of
                  None \<Rightarrow> None
                | Some (g, r) \<Rightarrow>
                    (case r of
                       [] \<Rightarrow> None
                     | d # r' \<Rightarrow> if d = CHR '')'' then Some (g, r') else None))
          else None)"

definition size_patterns :: "matcher list" where
  "size_patterns = [match_mm, match_inch, match_paren]"

text \<open>
  \<open>re.findall\<close>: the groups of the non-overlapping matches, scanning from the left;
  after a match the scan goes on behind it, after a failed attempt one character on.
  The three matchers always consume at least one character (lemma \<open>size_patterns_shrink\<close>
  below), so the last branch is never taken for them.
\<close>

function findall :: "matcher \<Rightarrow> string \<Rightarrow> string list" where
  "findall m [] = []"
| "findall m (c # cs) =
     (case m (c # cs) of
        None \<Rightarrow> findall m cs
      | Some (g, r) \<Rightarrow> if length r < length (c # cs) then g # findall m r else [g])"
  by pat_completeness auto
termination
  by (relation "measure (\<lambda>(m, s). length s)") auto

definition colors :: "string list" where
  "colors = [''black'', ''red'', ''blue'', ''green'', ''white'', ''yellow'',
             ''orange'', ''purple'', ''pink'', ''brown'', ''grey'', ''gray'']"

definition extract_tokens :: "string \<Rightarrow> string set" where
  "extract_tokens text =
     (let tokens = set (map lower (concat (map (\<lambda>pattern. findall pattern text) size_patterns)));
          text_lower = lower text
      in tokens \<union> set (filter (\<lambda>color. is_in color text_lower) colors))"

text \<open>
  \<open>token_similarity\<close>. The value is the exact quotient of the two lengths; where the
  source goes on computing with the float (in \<open>combined_score\<close> below) the quotient
  is rounded there.
\<close>

definition token_similarity :: "string set \<Rightarrow> string set \<Rightarrow> real" where
  "token_similarity tokens1 tokens2 =
     (if tokens1 = {} \<or> tokens2 = {} then 0
      else (let intersection = tokens1 \<inter> tokens2;
                union = tokens1 \<union> tokens2
            in if union \<noteq> {} then real (card intersection) / real (card union) else 0))"

section \<open>Python values\<close>

text \<open>
  An \<open>Optional[str]\<close> argument is a \<open>string option\<close>. The source tests such values
  by truth (\<open>if input_product:\<close>): \<open>None\<close> and the empty string are both false.
  \<open>truthy\<close> gives the string when the test succeeds.
\<close>

definition truthy :: "string option \<Rightarrow> string option" where
  "truthy v = (case v of None \<Rightarrow> None | Some s \<Rightarrow> if s = [] then None else Some s)"

datatype py_error = IndexError | DatabaseError

text \<open>\<open>xs[0]\<close>: raises \<open>IndexError\<close> on the empty list.\<close>

definition index0 :: "'a list \<Rightarrow> py_error + 'a" where
  "index0 xs = (case xs of [] \<Rightarrow> Inl IndexError | x # _ \<Rightarrow> Inr x)"

text \<open>\<open>int(x)\<close> of a float: truncation towards zero.\<close>

definition py_int :: "real \<Rightarrow> int" where
  "py_int x = (if 0 \<le> x then \<lfloor>x\<rfloor> else \<lceil>x\<rceil>)"

text \<open>
  Python's \<open>float\<close> is the IEEE 754 double. A float is modelled by the real number
  it stands for, and every arithmetic operation by the exact operation followed by
  \<open>py_float\<close>, the rounding to the nearest double with ties to the even significand:
  53 significant bits, and below \<open>2 ^ -1022\<close> the fixed spacing \<open>2 ^ -1074\<close> of the
  subnormal numbers. Overflow is not modelled: the values rounded here are scores, at
  most a few hundred.
\<close>

definition round_half_even :: "real \<Rightarrow> int" where
  "round_half_even y =
     (let f = \<lfloor>y\<rfloor>; d = y - of_int f in
      if d < 1 / 2 then f
      else if d > 1 / 2 then f + 1
      else if even f then f else f + 1)"

text \<open>
  \<open>binade x\<close> is the exponent \<open>e\<close> with \<open>2 ^ e \<le> \<bar>x\<bar> < 2 ^ (e + 1)\<close>, that is
  \<open>\<lfloor>log 2 \<bar>x\<bar>\<rfloor>\<close> (lemma \<open>binade_log\<close> below), computed from bit lengths.
\<close>

definition binade :: "real \<Rightarrow> int" where
  "binade x =
     (let a = \<bar>x\<bar> in if 1 \<le> a then bitlen \<lfloor>a\<rfloor> - 1 else - bitlen (\<lceil>1 / a\<rceil> - 1))"

definition py_float :: "real \<Rightarrow> real" where
  "py_float x =
     (if x = 0 then 0
      else (let e = max (binade x - 52) (- 1074)
            in of_int (round_half_even (x / 2 powi e)) * 2 powi e))"

text \<open>
  A \<open>dict\<close> keeps its keys in insertion order; it is an association list with
  distinct keys. \<open>dict_append\<close> is \<open>d[k].append(v)\<close> on a \<open>defaultdict(list)\<close>,
  \<open>dict_set\<close> is \<open>d[k] = v\<close>.
\<close>

type_synonym ('k, 'v) dict = "('k \<times> 'v) list"

fun dict_append :: "'k \<Rightarrow> 'v \<Rightarrow> ('k, 'v list) dict \<Rightarrow> ('k, 'v list) dict" where
  "dict_append k v [] = [(k, [v])]"
| "dict_append k v ((k', vs) # d) =
     (if k' = k then (k', vs @ [v]) # d else (k', vs) # dict_append k v d)"

fun dict_set :: "'k \<Rightarrow> 'v \<Rightarrow> ('k, 'v) dict \<Rightarrow> ('k, 'v) dict" where
  "dict_set k v [] = [(k, v)]"
| "dict_set k v ((k', v') # d) =
     (if k' = k then (k', v) # d else (k', v') # dict_set k v d)"

definition dict_keys :: "('k, 'v) dict \<Rightarrow> 'k list" where
  "dict_keys d = map fst d"

section \<open>ProductCache\<close>

record product_variant =
  pv_article :: string
  pv_name :: string
  pv_source :: string

record product_entry =
  pe_article :: string
  pe_name :: string

record synonym_entry =
  se_article :: "string option"
  se_product :: "string option"
  se_score :: int

record product_cache =
  article_to_products :: "(string, product_variant list) dict"
  product_to_articles :: "(string, string list) dict"
  synonym_map :: "(string, synonym_entry) dict"
  all_products :: "product_entry list"
  last_refresh :: "nat option"
  version :: nat

definition init_cache :: product_cache where
  "init_cache =
     \<lparr>article_to_products = [], product_to_articles = [], synonym_map = [],
      all_products = [], last_refresh = None, version = 0\<rparr>"

text \<open>A row of the CSV catalogue and a row of the database's product table.\<close>

record csv_row =
  Article_Number :: "string option"
  Product :: "string option"

record db_row =
  article_number :: "string option"
  product_name :: "string option"
  synonyms :: "string option"

text \<open>
  \<open>json.loads\<close> is a parameter: \<open>None\<close> stands for \<open>JSONDecodeError\<close>, \<open>Some l\<close>
  for a text that parses. The synonyms column is written by the repository only with
  \<open>json.dumps\<close> of a list of strings, so a text that parses is taken to be such a list.
\<close>

type_synonym json_loads = "string \<Rightarrow> string list option"

definition add_product :: "csv_row \<Rightarrow> product_cache \<Rightarrow> product_cache" where
  "add_product product c =
     (case (truthy (Article_Number product), truthy (Product product)) of
        (Some article, Some name) \<Rightarrow>
          c\<lparr>article_to_products :=
               dict_append article
                 \<lparr>pv_article = article, pv_name = name, pv_source = ''csv''\<rparr>
                 (article_to_products c),
             product_to_articles := dict_append name article (product_to_articles c),
             all_products := all_products c @ [\<lparr>pe_article = article, pe_name = name\<rparr>]\<rparr>
      | _ \<Rightarrow> c)"

definition add_synonym :: "db_row \<Rightarrow> string \<Rightarrow> product_cache \<Rightarrow> product_cache" where
  "add_synonym db_product synonym c =
     c\<lparr>synonym_map :=
         dict_set (lower synonym)
           \<lparr>se_article = article_number db_product, se_product = product_name db_product,
            se_score = 100\<rparr>
           (synonym_map c)\<rparr>"

definition add_synonyms :: "json_loads \<Rightarrow> db_row \<Rightarrow> product_cache \<Rightarrow> product_cache" where
  "add_synonyms loads db_product c =
     (case truthy (synonyms db_product) of
        None \<Rightarrow> c
      | Some synonyms_json \<Rightarrow>
          (case loads synonyms_json of
             None \<Rightarrow> c
           | Some syns \<Rightarrow> fold (add_synonym db_product) syns c))"

text \<open>
  \<open>refresh\<close> works on the cache object in place: it clears the three indexes and the
  product list, fills them again, stamps the time (the parameter \<open>now\<close>) and counts
  the version up. The lock is not modelled (one thread).
\<close>

definition refresh ::
  "json_loads \<Rightarrow> nat \<Rightarrow> csv_row list \<Rightarrow> db_row list \<Rightarrow> product_cache \<Rightarrow> product_cache" where
  "refresh loads now products_data db_products c =
     (let c0 = c\<lparr>article_to_products := [], product_to_articles := [], synonym_map := [],
                 all_products := []\<rparr>;
          c1 = fold add_product products_data c0;
          c2 = fold (add_synonyms loads) db_products c1
      in c2\<lparr>last_refresh := Some now, version := version c + 1\<rparr>)"

definition get_products_by_article :: "product_cache \<Rightarrow> string \<Rightarrow> product_variant list" where
  "get_products_by_article c article =
     (case map_of (article_to_products c) article of None \<Rightarrow> [] | Some ps \<Rightarrow> ps)"

definition get_articles_by_product :: "product_cache \<Rightarrow> string \<Rightarrow> string list" where
  "get_articles_by_product c product =
     (case map_of (product_to_articles c) product of None \<Rightarrow> [] | Some as \<Rightarrow> as)"

definition get_all_products :: "product_cache \<Rightarrow> product_entry list" where
  "get_all_products c = all_products c"

definition get_synonym_match :: "product_cache \<Rightarrow> string \<Rightarrow> synonym_entry option" where
  "get_synonym_match c text = map_of (synonym_map c) (lower text)"

section \<open>The fuzzy-matching library\<close>

text \<open>
  The scorers \<open>fuzz.ratio\<close> and \<open>fuzz.token_sort_ratio\<close> belong to the library
  \<open>fuzzywuzzy\<close>, not to the repository. They are parameters: \<open>ratio fz q c\<close> is the
  score \<open>process\<close> computes for the query \<open>q\<close> against the choice \<open>c\<close> with that
  scorer, a natural number (the specification gives the range 0 to 100).
\<close>

record fuzz =
  ratio :: "string \<Rightarrow> string \<Rightarrow> nat"
  token_sort_ratio :: "string \<Rightarrow> string \<Rightarrow> nat"

definition scored :: "(string \<Rightarrow> string \<Rightarrow> nat) \<Rightarrow> string \<Rightarrow> string list \<Rightarrow> (string \<times> int) list" where
  "scored scorer query choices = map (\<lambda>choice. (choice, int (scorer query choice))) choices"

text \<open>
  Modelled from the spec: \<open>process.extractOne\<close> of the library, the specification's
  \<open>extractBest\<close>: the single highest-scoring candidate, ties broken by first
  occurrence in the candidate sequence; nothing for no candidates.
\<close>

definition process_extractOne ::
  "(string \<Rightarrow> string \<Rightarrow> nat) \<Rightarrow> string \<Rightarrow> string list \<Rightarrow> (string \<times> int) option" where
  "process_extractOne scorer query choices =
     (case scored scorer query choices of
        [] \<Rightarrow> None
      | b # bs \<Rightarrow> Some (fold (\<lambda>x best. if snd best < snd x then x else best) bs b))"

text \<open>
  Modelled from the spec: \<open>process.extract\<close> of the library, the specification's
  \<open>extractTopN\<close>: the candidates with their scores, ordered descending by score, ties
  broken by input order, truncated to \<open>limit\<close>.
\<close>

definition process_extract ::
  "(string \<Rightarrow> string \<Rightarrow> nat) \<Rightarrow> string \<Rightarrow> string list \<Rightarrow> nat \<Rightarrow> (string \<times> int) list" where
  "process_extract scorer query choices limit =
     take limit (sort_key (\<lambda>m. - snd m) (scored scorer query choices))"

section \<open>EnhancedProductMatcher\<close>

text \<open>The returned tuple \<open>(matched_article, matched_product, score, method)\<close>.\<close>

type_synonym match_tuple = "string option \<times> string option \<times> int \<times> string option"

definition no_match :: match_tuple where
  "no_match = (None, None, 0, None)"

definition choose_best_candidate ::
  "fuzz \<Rightarrow> string \<Rightarrow> product_variant list \<Rightarrow> product_variant option" where
  "choose_best_candidate fz input_product candidates =
     (let candidate_names = map pv_name candidates;
          best_match = process_extractOne (token_sort_ratio fz) input_product candidate_names
      in case best_match of
           None \<Rightarrow> None
         | Some bm \<Rightarrow> find (\<lambda>candidate. pv_name candidate = fst bm) candidates)"

text \<open>The body of the inner loop of \<open>_choose_best_article_by_tokens\<close>.\<close>

definition token_step ::
  "string set \<Rightarrow> string \<Rightarrow> product_variant \<Rightarrow> string option \<times> real \<Rightarrow> string option \<times> real" where
  "token_step input_tokens article product best =
     (let product_tokens = extract_tokens (pv_name product);
          score = token_similarity input_tokens product_tokens
      in if score > snd best then (Some article, score) else best)"

definition choose_best_article_by_tokens ::
  "product_cache \<Rightarrow> string \<Rightarrow> string list \<Rightarrow> string option" where
  "choose_best_article_by_tokens c input_product articles =
     (let input_tokens = extract_tokens input_product in
      if input_tokens = {} then None
      else (let best = fold (\<lambda>article. fold (token_step input_tokens article)
                                     (get_products_by_article c article))
                         articles (None, 0)
            in if snd best > 0.5 then fst best else None))"

text \<open>
  The loop body of \<open>_enhance_with_tokens\<close>; the state is \<open>(best_match,
  best_combined_score)\<close>. \<open>combined_score\<close> is the float
  \<open>(fuzzy_score * 0.7) + (token_score * 100 * 0.3)\<close>: the token score is the float
  quotient of the two lengths, the integers are converted to floats, the literals
  \<open>0.7\<close> and \<open>0.3\<close> are the doubles nearest to them, and each of the three products
  and the sum is rounded. Comparing floats, or a float with an integer, is exact.
\<close>

definition combined_score :: "string set \<Rightarrow> string \<times> int \<Rightarrow> real" where
  "combined_score input_tokens match =
     (let product_tokens = extract_tokens (fst match);
          token_score = py_float (token_similarity input_tokens product_tokens);
          fuzzy_score = py_float (of_int (snd match))
      in py_float (py_float (fuzzy_score * py_float 0.7) +
                   py_float (py_float (token_score * py_float 100) * py_float 0.3)))"

definition enhance_step ::
  "string set \<Rightarrow> string \<times> int \<Rightarrow> (string \<times> int) \<times> real \<Rightarrow> (string \<times> int) \<times> real" where
  "enhance_step input_tokens match best =
     (let combined = combined_score input_tokens match
      in if combined > snd best then ((fst match, py_int combined), combined) else best)"

definition enhance_with_tokens ::
  "string \<Rightarrow> (string \<times> int) list \<Rightarrow> product_entry list \<Rightarrow> py_error + (string \<times> int)" where
  "enhance_with_tokens input_product fuzzy_matches all_prods =
     (let input_tokens = extract_tokens input_product in
      case index0 fuzzy_matches of
        Inl e \<Rightarrow> Inl e
      | Inr m0 \<Rightarrow>
          Inr (fst (fold (enhance_step input_tokens) fuzzy_matches (m0, real_of_int (snd m0)))))"

text \<open>
  \<open>match_product\<close> tries five strategies in turn and returns at the first that
  produces a tuple. Each strategy is a function of its own here; \<open>Inr None\<close> says that
  control falls through to the code after it.
\<close>

type_synonym strategy_result = "py_error + match_tuple option"

definition hit :: "product_variant \<Rightarrow> int \<Rightarrow> string \<Rightarrow> strategy_result" where
  "hit p score method = Inr (Some (Some (pv_article p), Some (pv_name p), score, Some method))"

text \<open>Strategy 1: exact article number match.\<close>

definition exact_article_strategy ::
  "fuzz \<Rightarrow> product_cache \<Rightarrow> string option \<Rightarrow> string option \<Rightarrow> strategy_result" where
  "exact_article_strategy fz c input_product input_article =
     (case truthy input_article of
        None \<Rightarrow> Inr None
      | Some article \<Rightarrow>
          (let products = get_products_by_article c article in
           if products \<noteq> [] then
             if length products = 1 then
               (case index0 products of
                  Inl e \<Rightarrow> Inl e
                | Inr p \<Rightarrow> hit p 100 ''exact_article'')
             else
               (case truthy input_product of
                  Some name \<Rightarrow>
                    (case choose_best_candidate fz name products of
                       Some best_match \<Rightarrow> hit best_match 100 ''exact_article_disambiguated''
                     | None \<Rightarrow> Inr None)
                | None \<Rightarrow>
                    (case index0 products of
                       Inl e \<Rightarrow> Inl e
                     | Inr p \<Rightarrow> hit p 100 ''exact_article_first''))
           else Inr None))"

text \<open>Strategy 2: exact product name match.\<close>

definition exact_product_strategy ::
  "product_cache \<Rightarrow> string option \<Rightarrow> strategy_result" where
  "exact_product_strategy c input_product =
     (case truthy input_product of
        None \<Rightarrow> Inr None
      | Some name \<Rightarrow>
          (let articles = get_articles_by_product c name in
           if articles \<noteq> [] then
             if length articles = 1 then
               (case index0 articles of
                  Inl e \<Rightarrow> Inl e
                | Inr a \<Rightarrow> Inr (Some (Some a, input_product, 100, Some ''exact_product'')))
             else
               (case truthy (choose_best_article_by_tokens c name articles) of
                  Some best_article \<Rightarrow>
                    Inr (Some (Some best_article, input_product, 100,
                               Some ''exact_product_token_disambiguated''))
                | None \<Rightarrow>
                    (case index0 articles of
                       Inl e \<Rightarrow> Inl e
                     | Inr a \<Rightarrow>
                         Inr (Some (Some a, input_product, 100, Some ''exact_product_first''))))
           else Inr None))"

text \<open>Strategy 3: synonym match.\<close>

definition synonym_strategy :: "product_cache \<Rightarrow> string option \<Rightarrow> strategy_result" where
  "synonym_strategy c input_product =
     (case truthy input_product of
        None \<Rightarrow> Inr None
      | Some name \<Rightarrow>
          (case get_synonym_match c name of
             None \<Rightarrow> Inr None
           | Some synonym_match \<Rightarrow>
               Inr (Some (se_article synonym_match, se_product synonym_match,
                          se_score synonym_match, Some ''synonym_match''))))"

text \<open>Strategy 4: fuzzy article number match.\<close>

definition fuzzy_article_strategy ::
  "fuzz \<Rightarrow> product_cache \<Rightarrow> string option \<Rightarrow> strategy_result" where
  "fuzzy_article_strategy fz c input_article =
     (case truthy input_article of
        None \<Rightarrow> Inr None
      | Some article \<Rightarrow>
          (let all_articles = dict_keys (article_to_products c) in
           if all_articles \<noteq> [] then
             (case process_extractOne (ratio fz) article all_articles of
                None \<Rightarrow> Inr None
              | Some best_match \<Rightarrow>
                  if snd best_match \<ge> 85 then
                    (let products = get_products_by_article c (fst best_match) in
                     if products \<noteq> [] then
                       (case index0 products of
                          Inl e \<Rightarrow> Inl e
                        | Inr p \<Rightarrow> hit p (snd best_match) ''fuzzy_article'')
                     else Inr None)
                  else Inr None)
           else Inr None))"

text \<open>Strategy 5: fuzzy product name match with token enhancement.\<close>

definition fuzzy_product_strategy ::
  "fuzz \<Rightarrow> product_cache \<Rightarrow> string option \<Rightarrow> int \<Rightarrow> strategy_result" where
  "fuzzy_product_strategy fz c input_product threshold =
     (case truthy input_product of
        None \<Rightarrow> Inr None
      | Some name \<Rightarrow>
          (let all_prods = get_all_products c;
               product_names = map pe_name all_prods;
               matches = process_extract (token_sort_ratio fz) name product_names 5
           in if matches \<noteq> [] then
                (let valid_matches = filter (\<lambda>m. snd m \<ge> threshold) matches in
                 if valid_matches \<noteq> [] then
                   (case (if length valid_matches > 1
                          then enhance_with_tokens name valid_matches all_prods
                          else index0 valid_matches) of
                      Inl e \<Rightarrow> Inl e
                    | Inr best_match \<Rightarrow>
                        (let matched_product = fst best_match;
                             articles = get_articles_by_product c matched_product
                         in if articles \<noteq> [] then
                              (case (if length articles > 1
                                     then (case truthy (choose_best_article_by_tokens c name
                                                          articles) of
                                             Some best_article \<Rightarrow> Inr best_article
                                           | None \<Rightarrow> index0 articles)
                                     else index0 articles) of
                                 Inl e \<Rightarrow> Inl e
                               | Inr article \<Rightarrow>
                                   Inr (Some (Some article, Some matched_product,
                                              snd best_match,
                                              Some ''fuzzy_product_token_enhanced'')))
                            else Inr None))
                 else Inr None)
              else Inr None))"

text \<open>
  The candidates strategy 5 keeps for a name: the best five by \<open>token_sort_ratio\<close>,
  best first, that reach the threshold (\<open>valid_matches\<close> of the source).
\<close>

definition valid_matches_of ::
  "fuzz \<Rightarrow> product_cache \<Rightarrow> string \<Rightarrow> int \<Rightarrow> (string \<times> int) list" where
  "valid_matches_of fz c name threshold =
     filter (\<lambda>m. snd m \<ge> threshold)
       (process_extract (token_sort_ratio fz) name (map pe_name (get_all_products c)) 5)"

text \<open>
  Sequencing: the first strategy that returns a tuple ends the call, an exception
  ends it too, and \<open>Inr None\<close> goes on to the next strategy.
\<close>

definition or_else :: "strategy_result \<Rightarrow> strategy_result \<Rightarrow> strategy_result" where
  "or_else r next = (case r of Inr None \<Rightarrow> next | _ \<Rightarrow> r)"

definition match_product ::
  "fuzz \<Rightarrow> product_cache \<Rightarrow> string option \<Rightarrow> string option \<Rightarrow> int \<Rightarrow> py_error + match_tuple" where
  "match_product fz c input_product input_article threshold =
     (case or_else (exact_article_strategy fz c input_product input_article)
          (or_else (exact_product_strategy c input_product)
          (or_else (synonym_strategy c input_product)
          (or_else (fuzzy_article_strategy fz c input_article)
                   (fuzzy_product_strategy fz c input_product threshold)))) of
        Inl e \<Rightarrow> Inl e
      | Inr (Some r) \<Rightarrow> Inr r
      | Inr None \<Rightarrow> Inr no_match)"

section \<open>SynonymManager\<close>

record suggestion =
  sg_synonym :: string
  sg_article :: string
  sg_product :: "string option"
  sg_score :: int
  sg_suggested_at :: nat
  sg_status :: string

record synonym_manager =
  pending_synonyms :: "suggestion list"
  usage_stats :: "(string, int) dict"

text \<open>\<open>suggest_synonym\<close>; the reading of the clock is the parameter \<open>now\<close>.\<close>

definition suggest_synonym ::
  "nat \<Rightarrow> string \<Rightarrow> string \<Rightarrow> string option \<Rightarrow> int \<Rightarrow> synonym_manager \<Rightarrow> synonym_manager" where
  "suggest_synonym now original_text matched_article matched_product match_score mgr =
     (if 85 \<le> match_score \<and> match_score < 100 then
        (let suggestion =
               \<lparr>sg_synonym = original_text, sg_article = matched_article,
                sg_product = matched_product, sg_score = match_score,
                sg_suggested_at = now, sg_status = ''pending''\<rparr>
         in mgr\<lparr>pending_synonyms := pending_synonyms mgr @ [suggestion]\<rparr>)
      else mgr)"

text \<open>\<open>track_usage\<close>: \<open>usage_stats[synonym] += 1\<close> on a \<open>defaultdict(int)\<close>.\<close>

definition track_usage :: "string \<Rightarrow> synonym_manager \<Rightarrow> synonym_manager" where
  "track_usage synonym mgr =
     mgr\<lparr>usage_stats :=
           dict_set synonym
             ((case map_of (usage_stats mgr) synonym of None \<Rightarrow> 0 | Some n \<Rightarrow> n) + 1)
             (usage_stats mgr)\<rparr>"

text \<open>
  \<open>fuzzy_match_product\<close> of \<open>app_improved.py\<close>: the matcher's result is handed to
  the synonym manager, which counts a synonym hit and records a strong fuzzy hit as
  a suggestion. The module's global matcher, cache and manager are arguments here.
\<close>

definition fuzzy_match_product ::
  "fuzz \<Rightarrow> product_cache \<Rightarrow> nat \<Rightarrow> synonym_manager \<Rightarrow> string option \<Rightarrow> string option \<Rightarrow> int
     \<Rightarrow> py_error + (match_tuple \<times> synonym_manager)" where
  "fuzzy_match_product fz c now mgr input_product input_article threshold =
     (case match_product fz c input_product input_article threshold of
        Inl e \<Rightarrow> Inl e
      | Inr (article, product, score, method) \<Rightarrow>
          (let mgr1 = (case truthy input_product of
                         Some name \<Rightarrow>
                           if method = Some ''synonym_match'' then track_usage name mgr else mgr
                       | None \<Rightarrow> mgr);
               mgr2 = (case (truthy article, truthy input_product) of
                         (Some a, Some name) \<Rightarrow>
                           if 85 \<le> score \<and> score < 100
                           then suggest_synonym now name a product score mgr1
                           else mgr1
                       | _ \<Rightarrow> mgr1)
           in Inr ((article, product, score, method), mgr2)))"

text \<open>
  The manager is built over a database module (\<open>SynonymManager(db_module)\<close>). Its two
  calls are parameters working on a database state \<open>'db\<close>: reading a product may
  raise, and updating may raise after having changed the database or not.
\<close>

record 'db db_module =
  get_product_by_article :: "'db \<Rightarrow> string \<Rightarrow> py_error + db_row option"
  update_product :: "'db \<Rightarrow> string \<Rightarrow> string list \<Rightarrow> py_error option \<times> 'db"

definition existing_synonyms_of :: "json_loads \<Rightarrow> db_row \<Rightarrow> string list" where
  "existing_synonyms_of loads product =
     (case truthy (synonyms product) of
        None \<Rightarrow> []
      | Some synonyms_json \<Rightarrow> (case loads synonyms_json of None \<Rightarrow> [] | Some l \<Rightarrow> l))"

text \<open>
  \<open>approve_synonym\<close>. Every exception inside its \<open>try\<close> block is caught and turned
  into the result \<open>False\<close>.
\<close>

definition approve_synonym ::
  "'db db_module \<Rightarrow> json_loads \<Rightarrow> string \<Rightarrow> string \<Rightarrow> synonym_manager \<times> 'db
     \<Rightarrow> bool \<times> synonym_manager \<times> 'db" where
  "approve_synonym dbm loads synonym article st =
     (let mgr = fst st; db = snd st in
      case get_product_by_article dbm db article of
        Inl e \<Rightarrow> (False, mgr, db)
      | Inr None \<Rightarrow> (False, mgr, db)
      | Inr (Some product) \<Rightarrow>
          (let existing_synonyms = existing_synonyms_of loads product in
           if synonym \<notin> set existing_synonyms then
             (case update_product dbm db article (existing_synonyms @ [synonym]) of
                (Some e, db') \<Rightarrow> (False, mgr, db')
              | (None, db') \<Rightarrow>
                  (True,
                   mgr\<lparr>pending_synonyms :=
                         filter (\<lambda>s. sg_synonym s \<noteq> synonym \<or> sg_article s \<noteq> article)
                           (pending_synonyms mgr)\<rparr>,
                   db'))
           else (False, mgr, db)))"

section \<open>Well-formed caches\<close>

text \<open>
  What \<open>refresh\<close> establishes about the two product indexes and the product list:
  a bucket of the article index holds variants of that article only, an article
  listed under a name has a variant of that name, keys are non-empty, and the names
  with articles are the names of the product list.
\<close>

definition cache_inv :: "product_cache \<Rightarrow> bool" where
  "cache_inv c =
     ((\<forall>a p. p \<in> set (get_products_by_article c a) \<longrightarrow>
          pv_article p = a \<and> a \<noteq> [] \<and> pv_name p \<noteq> []) \<and>
      (\<forall>n a. a \<in> set (get_articles_by_product c n) \<longrightarrow>
          a \<noteq> [] \<and> n \<noteq> [] \<and> (\<exists>p \<in> set (get_products_by_article c a). pv_name p = n)) \<and>
      (\<forall>n. (get_articles_by_product c n \<noteq> []) = (n \<in> pe_name ` set (all_products c))))"

text \<open>The synonym records the database rows hold, in the order \<open>refresh\<close> reads them.\<close>

definition row_synonyms :: "json_loads \<Rightarrow> db_row \<Rightarrow> string list" where
  "row_synonyms loads db_product =
     (case truthy (synonyms db_product) of
        None \<Rightarrow> []
      | Some synonyms_json \<Rightarrow> (case loads synonyms_json of None \<Rightarrow> [] | Some syns \<Rightarrow> syns))"

definition stored_synonyms :: "json_loads \<Rightarrow> db_row list \<Rightarrow> (string \<times> db_row) list" where
  "stored_synonyms loads db_products =
     concat (map (\<lambda>r. map (\<lambda>s. (s, r)) (row_synonyms loads r)) db_products)"

definition entry_of :: "db_row \<Rightarrow> synonym_entry" where
  "entry_of r = \<lparr>se_article = article_number r, se_product = product_name r, se_score = 100\<rparr>"

text \<open>
  The catalogue rows \<open>refresh\<close> keeps, as (article, name) pairs in catalogue order:
  those with a non-empty article number and a non-empty product name.
\<close>

definition valid_rows :: "csv_row list \<Rightarrow> (string \<times> string) list" where
  "valid_rows rows =
     concat (map (\<lambda>row. case (truthy (Article_Number row), truthy (Product row)) of
                          (Some article, Some name) \<Rightarrow> [(article, name)]
                        | _ \<Rightarrow> []) rows)"


definition entry_of_row :: "string \<times> string \<Rightarrow> product_entry" where
  "entry_of_row an = \<lparr>pe_article = fst an, pe_name = snd an\<rparr>"

section \<open>Example data\<close>

text \<open>
  The fixture of the repository's matcher tests: three catalogue rows and one database
  row with the synonym \<open>R9 Black\<close>. The scorers of the example are tables holding the
  values the example needs.
\<close>

definition ex_loads :: json_loads where
  "ex_loads s = (if s = ''[\"R9 Black\"]'' then Some [''R9 Black''] else None)"

definition ex_products :: "csv_row list" where
  "ex_products =
     [\<lparr>Article_Number = Some ''12345'', Product = Some ''Rakza 9 Black 2.0mm''\<rparr>,
      \<lparr>Article_Number = Some ''12346'', Product = Some ''Rakza 9 Red 2.0mm''\<rparr>,
      \<lparr>Article_Number = Some ''12347'', Product = Some ''Tenergy 05''\<rparr>]"

definition ex_db :: "db_row list" where
  "ex_db =
     [\<lparr>article_number = Some ''12345'', product_name = Some ''Rakza 9 Black 2.0mm'',
       synonyms = Some ''[\"R9 Black\"]''\<rparr>]"

definition ex_cache :: product_cache where
  "ex_cache = refresh ex_loads 0 ex_products ex_db init_cache"

definition ex_fuzz :: fuzz where
  "ex_fuzz =
     \<lparr>ratio = (\<lambda>q c. if q = c then 100 else 20),
      token_sort_ratio = (\<lambda>q c. if lower q = lower c then 100 else 30)\<rparr>"

text \<open>
  A database module over a list of rows whose update always raises, and a manager
  with one pending suggestion.
\<close>

definition ex_dbm :: "(db_row list) db_module" where
  "ex_dbm =
     \<lparr>get_product_by_article = (\<lambda>db a. Inr (find (\<lambda>r. article_number r = Some a) db)),
      update_product = (\<lambda>db a syns. (Some DatabaseError, db))\<rparr>"

definition ex_mgr :: synonym_manager where
  "ex_mgr =
     \<lparr>pending_synonyms =
        [\<lparr>sg_synonym = ''Rakza Black'', sg_article = ''12345'',
          sg_product = Some ''Rakza 9 Black 2.0mm'', sg_score = 90, sg_suggested_at = 0,
          sg_status = ''pending''\<rparr>],
      usage_stats = [(''R9 Black'', 2)]\<rparr>"



text \<open>A database row whose synonym list holds the empty string.\<close>

definition ex_blank_loads :: json_loads where
  "ex_blank_loads s = (if s = ''[\"\"]'' then Some [[]] else None)"

definition ex_blank_db :: "db_row list" where
  "ex_blank_db =
     [\<lparr>article_number = Some ''12345'', product_name = Some ''Rakza 9 Black 2.0mm'',
       synonyms = Some ''[\"\"]''\<rparr>]"

definition ex_blank_cache :: product_cache where
  "ex_blank_cache = refresh ex_blank_loads 0 ex_products ex_blank_db init_cache"

text \<open>
  A catalogue with true duplicates: one name under the articles 12345 and 12347 (the
  specification's example), and a name without size or colour under two articles.
\<close>

definition ex_dup_products :: "csv_row list" where
  "ex_dup_products =
     [\<lparr>Article_Number = Some ''12345'', Product = Some ''Rakza 9 Black 2.0mm''\<rparr>,
      \<lparr>Article_Number = Some ''12346'', Product = Some ''Rakza 9 Red 2.0mm''\<rparr>,
      \<lparr>Article_Number = Some ''12347'', Product = Some ''Rakza 9 Black 2.0mm''\<rparr>,
      \<lparr>Article_Number = Some ''12348'', Product = Some ''Tenergy 05''\<rparr>,
      \<lparr>Article_Number = Some ''12349'', Product = Some ''Tenergy 05''\<rparr>]"

definition ex_dup_cache :: product_cache where
  "ex_dup_cache = refresh ex_loads 0 ex_dup_products ex_db init_cache"

text \<open>
  Scorers given by a table of scores per choice (0 for a choice not in the table).
  The scores of the examples below are those \<open>fuzz.token_sort_ratio\<close> computes for the
  query named with each table (twice the number of matching characters over the sum
  of the lengths, in percent, on the lower-cased, sorted tokens).
\<close>

definition table_fuzz :: "(string \<times> nat) list \<Rightarrow> fuzz" where
  "table_fuzz tbl =
     \<lparr>ratio = (\<lambda>q c. if q = c then 100 else 0),
      token_sort_ratio = (\<lambda>q c. case map_of tbl c of None \<Rightarrow> 0 | Some n \<Rightarrow> n)\<rparr>"

text \<open>The query \<open>Rakza 9 Blak 2.0mm\<close> against the test catalogue.\<close>

definition ex_blak_fuzz :: fuzz where
  "ex_blak_fuzz =
     table_fuzz [(''Rakza 9 Black 2.0mm'', 97), (''Rakza 9 Red 2.0mm'', 74), (''Tenergy 05'', 21)]"

definition ex_mgr0 :: synonym_manager where
  "ex_mgr0 = \<lparr>pending_synonyms = [], usage_stats = []\<rparr>"

definition ex_blak_suggestion :: suggestion where
  "ex_blak_suggestion =
     \<lparr>sg_synonym = ''Rakza 9 Blak 2.0mm'', sg_article = ''12345'',
      sg_product = Some ''Rakza 9 Black 2.0mm'', sg_score = 97, sg_suggested_at = 0,
      sg_status = ''pending''\<rparr>"

text \<open>
  The query \<open>Rakza 9 Grey 2.0mm\<close> against two catalogues of two rows each. In the
  first both names score 94; in the second the names score 94 and 90.
\<close>

definition ex_grey_fuzz :: fuzz where
  "ex_grey_fuzz =
     table_fuzz [(''Rakza 9 Grey 2.0'', 94), (''Rakza 8 Grey 2.0mm'', 94),
                 (''Rakza 9 Gray 2.0mm'', 94), (''Rakza 9 Grey 2.0mm Max'', 90)]"

definition ex_trunc_cache :: product_cache where
  "ex_trunc_cache =
     refresh ex_loads 0
       [\<lparr>Article_Number = Some ''12345'', Product = Some ''Rakza 9 Grey 2.0''\<rparr>,
        \<lparr>Article_Number = Some ''12346'', Product = Some ''Rakza 8 Grey 2.0mm''\<rparr>]
       [] init_cache"

definition ex_rank_cache :: product_cache where
  "ex_rank_cache =
     refresh ex_loads 0
       [\<lparr>Article_Number = Some ''12345'', Product = Some ''Rakza 9 Gray 2.0mm''\<rparr>,
        \<lparr>Article_Number = Some ''12346'', Product = Some ''Rakza 9 Grey 2.0mm Max''\<rparr>]
       [] init_cache"

section \<open>Properties of the float rounding\<close>

lemma floor_log2_between:
  fixes a :: real
  assumes "0 < a" and "2 powr of_int k \<le> a" and "a < 2 powr of_int (k + 1)"
  shows "\<lfloor>log 2 a\<rfloor> = k"
  using assms by (simp add: floor_log_eq_powr_iff)

lemma two_powr_nonneg: "0 \<le> e \<Longrightarrow> (2::real) powr of_int e = 2 ^ nat e"
  using powr_int[of 2 e] by simp

lemma two_powr_nonpos: "e \<le> 0 \<Longrightarrow> (2::real) powr of_int e = 1 / 2 ^ nat (- e)"
  using powr_int[of 2 e] by (cases "e = 0") simp_all

lemma binade_log:
  assumes "x \<noteq> 0"
  shows "binade x = \<lfloor>log 2 \<bar>x\<bar>\<rfloor>"
proof -
  define a where "a = \<bar>x\<bar>"
  have pos: "0 < a" using assms by (simp add: a_def)
  show ?thesis
  proof (cases "1 \<le> a")
    case True
    define n where "n = \<lfloor>a\<rfloor>"
    define b where "b = bitlen n"
    have n1: "1 \<le> n" using True by (simp add: n_def)
    then have npos: "0 < n" by simp
    from bitlen_bounds[OF npos]
    have lo: "2 ^ nat (b - 1) \<le> n" and hi: "n < 2 ^ nat b" by (simp_all add: b_def)
    have b1: "1 \<le> b"
    proof (rule ccontr)
      assume "\<not> 1 \<le> b"
      then have "nat b = 0" by simp
      with hi n1 show False by simp
    qed
    have "of_int n \<le> a" by (simp add: n_def)
    moreover have "(2::real) ^ nat (b - 1) \<le> of_int n"
      using lo by (metis of_int_le_iff of_int_numeral of_int_power)
    moreover have "2 powr of_int (b - 1) = (2::real) ^ nat (b - 1)"
      by (rule two_powr_nonneg) (use b1 in simp)
    ultimately have l: "2 powr of_int (b - 1) \<le> a" by linarith
    have "a < of_int n + 1" by (simp add: n_def)
    moreover have "of_int n + 1 \<le> (2::real) ^ nat b"
    proof -
      from hi have "n + 1 \<le> 2 ^ nat b" by simp
      then have "of_int (n + 1) \<le> (of_int (2 ^ nat b) :: real)" by (simp only: of_int_le_iff)
      then show ?thesis by simp
    qed
    moreover have "2 powr of_int (b - 1 + 1) = (2::real) ^ nat b"
      using two_powr_nonneg[of b] b1 by simp
    ultimately have u: "a < 2 powr of_int (b - 1 + 1)" by linarith
    from floor_log2_between[OF pos l u] have "\<lfloor>log 2 a\<rfloor> = b - 1" .
    then show ?thesis using True by (simp add: binade_def a_def[symmetric] Let_def b_def n_def)
  next
    case False
    define N where "N = \<lceil>1 / a\<rceil>"
    define m where "m = N - 1"
    define b where "b = bitlen m"
    have inv: "1 < 1 / a" using False pos by simp
    then have "2 \<le> N" unfolding N_def by linarith
    then have mpos: "0 < m" by (simp add: m_def)
    from bitlen_bounds[OF mpos]
    have lo: "2 ^ nat (b - 1) \<le> m" and hi: "m < 2 ^ nat b" by (simp_all add: b_def)
    have b1: "1 \<le> b"
    proof (rule ccontr)
      assume "\<not> 1 \<le> b"
      then have "nat b = 0" by simp
      with hi mpos show False by simp
    qed
    have "of_int m < 1 / a" unfolding m_def N_def by linarith
    moreover have "(2::real) ^ nat (b - 1) \<le> of_int m"
      using lo by (metis of_int_le_iff of_int_numeral of_int_power)
    ultimately have "(2::real) ^ nat (b - 1) < 1 / a" by linarith
    then have "a * 2 ^ nat (b - 1) < 1"
      using pos by (simp add: field_simps)
    then have "a < 1 / 2 ^ nat (b - 1)"
      by (simp add: field_simps)
    moreover have "2 powr of_int (- b + 1) = 1 / (2::real) ^ nat (b - 1)"
      using two_powr_nonpos[of "- b + 1"] b1 by simp
    ultimately have u: "a < 2 powr of_int (- b + 1)" by linarith
    have "1 / a \<le> of_int N" unfolding N_def by linarith
    moreover have "of_int N \<le> (2::real) ^ nat b"
    proof -
      from hi have "m + 1 \<le> 2 ^ nat b" by simp
      then have "of_int (m + 1) \<le> (of_int (2 ^ nat b) :: real)" by (simp only: of_int_le_iff)
      then show ?thesis by (simp add: m_def)
    qed
    ultimately have "1 / a \<le> 2 ^ nat b" by linarith
    then have "1 \<le> a * 2 ^ nat b" using pos by (simp add: field_simps)
    then have "1 / 2 ^ nat b \<le> a" by (simp add: field_simps)
    moreover have "2 powr of_int (- b) = 1 / (2::real) ^ nat b"
      using two_powr_nonpos[of "- b"] b1 by simp
    ultimately have l: "2 powr of_int (- b) \<le> a" by linarith
    from floor_log2_between[OF pos l u] have "\<lfloor>log 2 a\<rfloor> = - b" .
    then show ?thesis
      using False by (simp add: binade_def a_def[symmetric] Let_def b_def m_def N_def)
  qed
qed

lemma py_float_log:
  "py_float x =
     (if x = 0 then 0
      else (let e = max (\<lfloor>log 2 \<bar>x\<bar>\<rfloor> - 52) (- 1074)
            in of_int (round_half_even (x / 2 powr of_int e)) * 2 powr of_int e))"
proof -
  have "(2::real) powi e = 2 powr of_int e" for e :: int
    by (simp add: power_int_def powr_int power_one_over inverse_eq_divide)
  then show ?thesis by (simp add: py_float_def binade_log Let_def)
qed

section \<open>Properties of the size patterns\<close>

lemma match_number_shrink:
  assumes "match_number s = Some (g, r)"
  shows "length r < length s"
proof -
  define d where "d = takeWhile is_digit s"
  define r1 where "r1 = dropWhile is_digit s"
  have m: "match_number s =
     (if d = [] then None
      else (case r1 of
              [] \<Rightarrow> Some (d, [])
            | c # r2 \<Rightarrow>
                if c = CHR ''.''
                then Some (d @ [c] @ takeWhile is_digit r2, dropWhile is_digit r2)
                else Some (d, r1)))"
    unfolding match_number_def d_def r1_def Let_def by (rule refl)
  have ne: "d \<noteq> []" using assms m by (cases "d = []") simp_all
  have "length d + length r1 = length s"
    unfolding d_def r1_def by (metis length_append takeWhile_dropWhile_id)
  with ne have lt: "length r1 < length s" by (cases d) simp_all
  show ?thesis
  proof (cases r1)
    case Nil
    with assms m ne have "r = []" by simp
    with lt show ?thesis by (cases s) simp_all
  next
    case (Cons c r2)
    show ?thesis
    proof (cases "c = CHR ''.''")
      case True
      with assms m ne Cons have "r = dropWhile is_digit r2" by simp
      moreover have "length (dropWhile is_digit r2) \<le> length r2" by (rule length_dropWhile_le)
      ultimately show ?thesis using lt Cons by simp
    next
      case False
      with assms m ne Cons have "r = r1" by simp
      with lt show ?thesis by simp
    qed
  qed
qed

lemma match_mm_shrink:
  assumes "match_mm s = Some (g, r)"
  shows "length r < length s"
proof (cases "match_number s")
  case None
  with assms show ?thesis by (simp add: match_mm_def)
next
  case (Some gr)
  obtain g0 r0 where gr: "gr = (g0, r0)" by (cases gr)
  have le: "length (dropWhile is_space r0) \<le> length r0" by (rule length_dropWhile_le)
  have lt: "length r0 < length s" using match_number_shrink Some gr by simp
  show ?thesis
  proof (cases "dropWhile is_space r0")
    case Nil
    with assms Some gr show ?thesis by (simp add: match_mm_def)
  next
    case a: (Cons a as)
    show ?thesis
    proof (cases as)
      case Nil
      with assms Some gr a show ?thesis by (simp add: match_mm_def)
    next
      case (Cons b r')
      with assms Some gr a have "r = r'" by (simp add: match_mm_def split: if_splits)
      with le lt a Cons show ?thesis by simp
    qed
  qed
qed

lemma match_inch_shrink:
  assumes "match_inch s = Some (g, r)"
  shows "length r < length s"
proof (cases "match_number s")
  case None
  with assms show ?thesis by (simp add: match_inch_def)
next
  case (Some gr)
  obtain g0 r0 where gr: "gr = (g0, r0)" by (cases gr)
  have le: "length (dropWhile is_space r0) \<le> length r0" by (rule length_dropWhile_le)
  have lt: "length r0 < length s" using match_number_shrink Some gr by simp
  show ?thesis
  proof (cases "dropWhile is_space r0")
    case Nil
    with assms Some gr show ?thesis by (simp add: match_inch_def)
  next
    case (Cons a r')
    with assms Some gr have "r = r'" by (simp add: match_inch_def split: if_splits)
    with le lt Cons show ?thesis by simp
  qed
qed

lemma match_paren_shrink:
  assumes "match_paren s = Some (g, r)"
  shows "length r < length s"
proof (cases s)
  case Nil
  with assms show ?thesis by (simp add: match_paren_def)
next
  case s: (Cons c s')
  show ?thesis
  proof (cases "match_number s'")
    case None
    with assms s show ?thesis by (simp add: match_paren_def split: if_splits)
  next
    case (Some gr)
    obtain g0 r0 where gr: "gr = (g0, r0)" by (cases gr)
    have lt: "length r0 < length s'" using match_number_shrink Some gr by simp
    show ?thesis
    proof (cases r0)
      case Nil
      with assms s Some gr show ?thesis by (simp add: match_paren_def split: if_splits)
    next
      case (Cons d r')
      with assms s Some gr have "r = r'" by (simp add: match_paren_def split: if_splits)
      with lt s Cons show ?thesis by simp
    qed
  qed
qed

lemma size_patterns_shrink:
  assumes "m \<in> set size_patterns" and "m s = Some (g, r)"
  shows "length r < length s"
proof -
  from assms(1) have "m = match_mm \<or> m = match_inch \<or> m = match_paren"
    by (simp add: size_patterns_def)
  with assms(2) match_mm_shrink match_inch_shrink match_paren_shrink show ?thesis by blast
qed

section \<open>Properties of the cache\<close>

lemma map_of_dict_append:
  "map_of (dict_append k v d) k' =
     (if k' = k then Some ((case map_of d k of None \<Rightarrow> [] | Some vs \<Rightarrow> vs) @ [v]) else map_of d k')"
  by (induction d) auto

lemma map_of_dict_set: "map_of (dict_set k v d) = (map_of d)(k \<mapsto> v)"
  by (induction d) auto

lemma truthy_Some: "truthy v = Some s \<longleftrightarrow> v = Some s \<and> s \<noteq> []"
  by (auto simp: truthy_def split: option.splits)

lemma truthy_None: "truthy v = None \<longleftrightarrow> v = None \<or> v = Some []"
  by (auto simp: truthy_def split: option.splits)

lemma get_products_add_product:
  "get_products_by_article (add_product row c) a =
     (case (truthy (Article_Number row), truthy (Product row)) of
        (Some article, Some name) \<Rightarrow>
           if a = article
           then get_products_by_article c a @ [\<lparr>pv_article = article, pv_name = name, pv_source = ''csv''\<rparr>]
           else get_products_by_article c a
      | _ \<Rightarrow> get_products_by_article c a)"
  by (auto simp: add_product_def get_products_by_article_def map_of_dict_append split: option.splits)

lemma get_articles_add_product:
  "get_articles_by_product (add_product row c) n =
     (case (truthy (Article_Number row), truthy (Product row)) of
        (Some article, Some name) \<Rightarrow>
           if n = name then get_articles_by_product c n @ [article]
           else get_articles_by_product c n
      | _ \<Rightarrow> get_articles_by_product c n)"
  by (auto simp: add_product_def get_articles_by_product_def map_of_dict_append split: option.splits)

lemma all_products_add_product:
  "all_products (add_product row c) =
     (case (truthy (Article_Number row), truthy (Product row)) of
        (Some article, Some name) \<Rightarrow> all_products c @ [\<lparr>pe_article = article, pe_name = name\<rparr>]
      | _ \<Rightarrow> all_products c)"
  by (auto simp: add_product_def split: option.splits)

lemma cache_inv_add_product: "cache_inv c \<Longrightarrow> cache_inv (add_product row c)"
proof (cases "truthy (Article_Number row)")
  case None
  then show "cache_inv c \<Longrightarrow> cache_inv (add_product row c)" by (simp add: add_product_def)
next
  case a: (Some article)
  show "cache_inv c \<Longrightarrow> cache_inv (add_product row c)"
  proof (cases "truthy (Product row)")
    case None
    then show "cache_inv c \<Longrightarrow> cache_inv (add_product row c)" by (simp add: add_product_def a)
  next
    case n: (Some name)
    have ne: "article \<noteq> []" "name \<noteq> []" using a n by (auto simp: truthy_Some)
    assume inv: "cache_inv c"
    show "cache_inv (add_product row c)"
      using inv ne unfolding cache_inv_def
      by (auto simp: get_products_add_product get_articles_add_product
            all_products_add_product a n split: if_splits)
  qed
qed

lemma cache_inv_fold_add_product: "cache_inv c \<Longrightarrow> cache_inv (fold add_product rows c)"
  by (induction rows arbitrary: c) (auto simp: cache_inv_add_product)


lemma add_synonym_fields [simp]:
  "article_to_products (add_synonym r s c) = article_to_products c"
  "product_to_articles (add_synonym r s c) = product_to_articles c"
  "all_products (add_synonym r s c) = all_products c"
  by (simp_all add: add_synonym_def)

lemma fold_add_synonym_fields [simp]:
  "article_to_products (fold (add_synonym r) syns c) = article_to_products c"
  "product_to_articles (fold (add_synonym r) syns c) = product_to_articles c"
  "all_products (fold (add_synonym r) syns c) = all_products c"
  by (induction syns arbitrary: c) simp_all

lemma add_synonyms_eq: "add_synonyms loads r c = fold (add_synonym r) (row_synonyms loads r) c"
  by (simp add: add_synonyms_def row_synonyms_def split: option.splits)

lemma fold_add_synonyms_fields [simp]:
  "article_to_products (fold (add_synonyms loads) rows c) = article_to_products c"
  "product_to_articles (fold (add_synonyms loads) rows c) = product_to_articles c"
  "all_products (fold (add_synonyms loads) rows c) = all_products c"
  by (induction rows arbitrary: c) (simp_all add: add_synonyms_eq)

lemma add_product_synonym_map [simp]: "synonym_map (add_product row c) = synonym_map c"
  by (simp add: add_product_def split: option.splits)

lemma fold_add_product_synonym_map [simp]: "synonym_map (fold add_product rows c) = synonym_map c"
  by (induction rows arbitrary: c) simp_all

lemma cache_inv_cong:
  "article_to_products c' = article_to_products c \<Longrightarrow>
   product_to_articles c' = product_to_articles c \<Longrightarrow>
   all_products c' = all_products c \<Longrightarrow> cache_inv c' = cache_inv c"
  by (simp add: cache_inv_def get_products_by_article_def get_articles_by_product_def)

lemma cache_inv_cleared:
  "cache_inv (c\<lparr>article_to_products := [], product_to_articles := [], synonym_map := [],
                all_products := []\<rparr>)"
  by (simp add: cache_inv_def get_products_by_article_def get_articles_by_product_def)

lemma cache_inv_refresh: "cache_inv (refresh loads now products_data db_products c)"
proof -
  let ?c0 = "c\<lparr>article_to_products := [], product_to_articles := [], synonym_map := [],
                all_products := []\<rparr>"
  have "cache_inv (fold add_product products_data ?c0)"
    by (rule cache_inv_fold_add_product) (rule cache_inv_cleared)
  moreover have "cache_inv (refresh loads now products_data db_products c)
      = cache_inv (fold add_product products_data ?c0)"
    by (rule cache_inv_cong) (simp_all add: refresh_def Let_def)
  ultimately show ?thesis by simp
qed

lemma synonym_map_add_synonym:
  "map_of (synonym_map (add_synonym r s c)) = (map_of (synonym_map c))(lower s \<mapsto> entry_of r)"
  by (simp add: add_synonym_def map_of_dict_set entry_of_def)

lemma synonym_map_fold_add_synonym:
  "map_of (synonym_map (fold (add_synonym r) syns c)) =
     map_of (synonym_map c) ++ map_of (rev (map (\<lambda>s. (lower s, entry_of r)) syns))"
proof (induction syns arbitrary: c)
  case Nil
  show ?case by simp
next
  case (Cons s syns)
  show ?case
    by (simp add: Cons.IH synonym_map_add_synonym map_add_upd_left fun_eq_iff map_add_def split: option.splits)
qed

lemma synonym_map_add_synonyms:
  "map_of (synonym_map (add_synonyms loads r c)) =
     map_of (synonym_map c) ++ map_of (rev (map (\<lambda>s. (lower s, entry_of r)) (row_synonyms loads r)))"
  by (simp add: add_synonyms_eq synonym_map_fold_add_synonym)

lemma synonym_map_fold_add_synonyms:
  "map_of (synonym_map (fold (add_synonyms loads) rows c)) =
     map_of (synonym_map c) ++
     map_of (rev (map (\<lambda>(s, r). (lower s, entry_of r)) (stored_synonyms loads rows)))"
proof (induction rows arbitrary: c)
  case Nil
  show ?case by (simp add: stored_synonyms_def)
next
  case (Cons r rows)
  have "stored_synonyms loads (r # rows) =
          map (\<lambda>s. (s, r)) (row_synonyms loads r) @ stored_synonyms loads rows"
    by (simp add: stored_synonyms_def)
  then show ?case
    by (simp add: Cons.IH synonym_map_add_synonyms comp_def)
qed

lemma synonym_map_refresh:
  "map_of (synonym_map (refresh loads now products_data db_products c)) =
     map_of (rev (map (\<lambda>(s, r). (lower s, entry_of r)) (stored_synonyms loads db_products)))"
  by (simp add: refresh_def Let_def synonym_map_fold_add_synonyms)

lemma get_synonym_match_refresh_Some:
  assumes "get_synonym_match (refresh loads now products_data db_products c) name = Some e"
  shows "\<exists>(s, r) \<in> set (stored_synonyms loads db_products). lower s = lower name \<and> e = entry_of r"
  using assms unfolding get_synonym_match_def synonym_map_refresh
  by (fastforce dest!: map_of_SomeD)

lemma get_synonym_match_refresh_None:
  "(get_synonym_match (refresh loads now products_data db_products c) name = None) =
     (\<forall>(s, r) \<in> set (stored_synonyms loads db_products). lower s \<noteq> lower name)"
  unfolding get_synonym_match_def synonym_map_refresh
  by (force simp: map_of_eq_None_iff image_iff)


lemma index0_Inr: "xs \<noteq> [] \<Longrightarrow> index0 xs = Inr (hd xs)"
  by (cases xs) (simp_all add: index0_def)

lemma exact_article_strategy_no_error: "exact_article_strategy fz c n a \<noteq> Inl e"
  by (auto simp: exact_article_strategy_def hit_def index0_Inr Let_def split: option.splits)

lemma exact_product_strategy_no_error: "exact_product_strategy c n \<noteq> Inl e"
  by (auto simp: exact_product_strategy_def index0_Inr Let_def split: option.splits)

lemma synonym_strategy_no_error: "synonym_strategy c n \<noteq> Inl e"
  by (auto simp: synonym_strategy_def split: option.splits)

lemma fuzzy_article_strategy_no_error: "fuzzy_article_strategy fz c a \<noteq> Inl e"
  by (auto simp: fuzzy_article_strategy_def hit_def index0_Inr Let_def split: option.splits)

lemma enhance_with_tokens_no_error:
  "ms \<noteq> [] \<Longrightarrow> enhance_with_tokens name ms ap \<noteq> Inl e"
  by (simp add: enhance_with_tokens_def index0_Inr Let_def)

lemma fuzzy_product_strategy_alt:
  "fuzzy_product_strategy fz c input_product threshold =
     (case truthy input_product of
        None \<Rightarrow> Inr None
      | Some name \<Rightarrow>
          (let valid_matches = valid_matches_of fz c name threshold in
           if valid_matches \<noteq> [] then
             (case (if length valid_matches > 1
                    then enhance_with_tokens name valid_matches (get_all_products c)
                    else index0 valid_matches) of
                Inl e \<Rightarrow> Inl e
              | Inr best_match \<Rightarrow>
                  (let matched_product = fst best_match;
                       articles = get_articles_by_product c matched_product
                   in if articles \<noteq> [] then
                        (case (if length articles > 1
                               then (case truthy (choose_best_article_by_tokens c name articles) of
                                       Some best_article \<Rightarrow> Inr best_article
                                     | None \<Rightarrow> index0 articles)
                               else index0 articles) of
                           Inl e \<Rightarrow> Inl e
                         | Inr article \<Rightarrow>
                             Inr (Some (Some article, Some matched_product, snd best_match,
                                        Some ''fuzzy_product_token_enhanced'')))
                      else Inr None))
           else Inr None))"
proof (cases "truthy input_product")
  case None
  then show ?thesis by (simp add: fuzzy_product_strategy_def)
next
  case (Some name)
  let ?ms = "process_extract (token_sort_ratio fz) name (map pe_name (get_all_products c)) 5"
  show ?thesis
  proof (cases "?ms = []")
    case True
    then show ?thesis by (simp add: fuzzy_product_strategy_def valid_matches_of_def Some)
  next
    case False
    then show ?thesis
      by (simp add: fuzzy_product_strategy_def valid_matches_of_def Some Let_def)
  qed
qed

lemma fuzzy_product_strategy_no_error: "fuzzy_product_strategy fz c n th \<noteq> Inl e"
proof (cases "truthy n")
  case None
  then show ?thesis by (simp add: fuzzy_product_strategy_alt)
next
  case (Some name)
  let ?vm = "valid_matches_of fz c name th"
  show ?thesis
  proof (cases "?vm = []")
    case True
    then show ?thesis by (simp add: fuzzy_product_strategy_alt Some)
  next
    case False
    have "\<exists>bm. (if length ?vm > 1 then enhance_with_tokens name ?vm (get_all_products c)
                else index0 ?vm) = Inr bm"
    proof (cases "length ?vm > 1")
      case True
      then show ?thesis
        using enhance_with_tokens_no_error[OF False, of name "get_all_products c"]
        by (cases "enhance_with_tokens name ?vm (get_all_products c)") auto
    next
      case False
      then show ?thesis using \<open>?vm \<noteq> []\<close> by (simp add: index0_Inr)
    qed
    then obtain bm where bm: "(if length ?vm > 1 then enhance_with_tokens name ?vm (get_all_products c)
                          else index0 ?vm) = Inr bm" ..
    show ?thesis
      using False bm
      by (auto simp: fuzzy_product_strategy_alt Some Let_def index0_Inr split: option.splits)
  qed
qed

lemma or_else_simps:
  "or_else (Inr None) next = next"
  "or_else (Inr (Some r)) next = Inr (Some r)"
  "or_else (Inl e) next = Inl e"
  by (simp_all add: or_else_def)


lemma match_product_total: "\<exists>r. match_product fz c n a th = Inr r"
proof -
  have 1: "\<And>e. exact_article_strategy fz c n a \<noteq> Inl e" by (rule exact_article_strategy_no_error)
  have 2: "\<And>e. exact_product_strategy c n \<noteq> Inl e" by (rule exact_product_strategy_no_error)
  have 3: "\<And>e. synonym_strategy c n \<noteq> Inl e" by (rule synonym_strategy_no_error)
  have 4: "\<And>e. fuzzy_article_strategy fz c a \<noteq> Inl e" by (rule fuzzy_article_strategy_no_error)
  have 5: "\<And>e. fuzzy_product_strategy fz c n th \<noteq> Inl e" by (rule fuzzy_product_strategy_no_error)
  show ?thesis
    using 1 2 3 4 5 unfolding match_product_def or_else_def
    by (auto simp: no_match_def split: sum.splits option.splits)
qed

lemma match_product_cases:
  assumes "match_product fz c n a th = Inr r"
  shows "exact_article_strategy fz c n a = Inr (Some r) \<or>
         exact_article_strategy fz c n a = Inr None \<and>
         (exact_product_strategy c n = Inr (Some r) \<or>
          exact_product_strategy c n = Inr None \<and>
          (synonym_strategy c n = Inr (Some r) \<or>
           synonym_strategy c n = Inr None \<and>
           (fuzzy_article_strategy fz c a = Inr (Some r) \<or>
            fuzzy_article_strategy fz c a = Inr None \<and>
            (fuzzy_product_strategy fz c n th = Inr (Some r) \<or>
             fuzzy_product_strategy fz c n th = Inr None \<and> r = no_match))))"
  using assms unfolding match_product_def or_else_def
  by (auto split: sum.splits option.splits)


lemma exact_article_strategy_method:
  "exact_article_strategy fz c n a = Inr (Some r) \<Longrightarrow>
   snd (snd (snd r)) \<in> {Some ''exact_article'', Some ''exact_article_disambiguated'',
                          Some ''exact_article_first''}"
  by (auto simp: exact_article_strategy_def hit_def index0_Inr Let_def split: option.splits if_splits)

lemma exact_product_strategy_method:
  "exact_product_strategy c n = Inr (Some r) \<Longrightarrow>
   snd (snd (snd r)) \<in> {Some ''exact_product'', Some ''exact_product_token_disambiguated'',
                          Some ''exact_product_first''}"
  by (auto simp: exact_product_strategy_def index0_Inr Let_def split: option.splits if_splits)

lemma synonym_strategy_method:
  "synonym_strategy c n = Inr (Some r) \<Longrightarrow> snd (snd (snd r)) = Some ''synonym_match''"
  by (auto simp: synonym_strategy_def split: option.splits)

lemma fuzzy_article_strategy_method:
  "fuzzy_article_strategy fz c a = Inr (Some r) \<Longrightarrow> snd (snd (snd r)) = Some ''fuzzy_article''"
  by (auto simp: fuzzy_article_strategy_def hit_def index0_Inr Let_def split: option.splits if_splits)

lemma fuzzy_product_strategy_method:
  "fuzzy_product_strategy fz c n th = Inr (Some r) \<Longrightarrow>
   snd (snd (snd r)) = Some ''fuzzy_product_token_enhanced''"
  by (auto simp: fuzzy_product_strategy_alt Let_def split: option.splits if_splits sum.splits)

section \<open>Properties of the matcher\<close>

lemma match_product_origin:
  assumes "match_product fz c n a th = Inr r"
  obtains (s1) "exact_article_strategy fz c n a = Inr (Some r)"
        | (s2) "exact_product_strategy c n = Inr (Some r)"
        | (s3) "synonym_strategy c n = Inr (Some r)"
        | (s4) "fuzzy_article_strategy fz c a = Inr (Some r)"
        | (s5) "fuzzy_product_strategy fz c n th = Inr (Some r)"
        | (none) "r = no_match"
  using match_product_cases[OF assms] by blast

lemma match_product_all_none:
  assumes "exact_article_strategy fz c n a = Inr None"
    and "exact_product_strategy c n = Inr None"
    and "synonym_strategy c n = Inr None"
    and "fuzzy_article_strategy fz c a = Inr None"
    and "fuzzy_product_strategy fz c n th = Inr None"
  shows "match_product fz c n a th = Inr no_match"
  by (simp add: match_product_def or_else_def assms)

lemma strategies_absent:
  assumes "truthy n = None" and "truthy a = None"
  shows "exact_article_strategy fz c n a = Inr None"
    and "exact_product_strategy c n = Inr None"
    and "synonym_strategy c n = Inr None"
    and "fuzzy_article_strategy fz c a = Inr None"
    and "fuzzy_product_strategy fz c n th = Inr None"
  by (simp_all add: exact_article_strategy_def exact_product_strategy_def synonym_strategy_def
        fuzzy_article_strategy_def fuzzy_product_strategy_alt assms)

lemma match_product_method_None:
  assumes "match_product fz c n a th = Inr r" and "snd (snd (snd r)) = None"
  shows "r = no_match"
  using assms(1)
proof (cases rule: match_product_origin)
  case s1
  from exact_article_strategy_method[OF s1] assms(2) show ?thesis by simp
next
  case s2
  from exact_product_strategy_method[OF s2] assms(2) show ?thesis by simp
next
  case s3
  from synonym_strategy_method[OF s3] assms(2) show ?thesis by simp
next
  case s4
  from fuzzy_article_strategy_method[OF s4] assms(2) show ?thesis by simp
next
  case s5
  from fuzzy_product_strategy_method[OF s5] assms(2) show ?thesis by simp
next
  case none
  then show ?thesis .
qed

subsection \<open>Buckets in catalogue order\<close>

lemma valid_rows_Cons:
  "valid_rows (row # rows) =
     (case (truthy (Article_Number row), truthy (Product row)) of
        (Some article, Some name) \<Rightarrow> [(article, name)]
      | _ \<Rightarrow> []) @ valid_rows rows"
  by (simp add: valid_rows_def)


lemma get_articles_fold_add_product:
  "get_articles_by_product (fold add_product rows c) n =
     get_articles_by_product c n @ map fst (filter (\<lambda>an. snd an = n) (valid_rows rows))"
proof (induction rows arbitrary: c)
  case Nil
  show ?case by (simp add: valid_rows_def)
next
  case (Cons row rows)
  show ?case
    by (simp add: Cons.IH get_articles_add_product valid_rows_Cons split: option.splits)
qed

lemma all_products_fold_add_product:
  "all_products (fold add_product rows c) = all_products c @ map entry_of_row (valid_rows rows)"
proof (induction rows arbitrary: c)
  case Nil
  show ?case by (simp add: valid_rows_def)
next
  case (Cons row rows)
  show ?case
    by (simp add: Cons.IH all_products_add_product valid_rows_Cons entry_of_row_def
          split: option.splits)
qed


lemma get_articles_refresh:
  "get_articles_by_product (refresh loads now rows db_products c) n =
     map fst (filter (\<lambda>an. snd an = n) (valid_rows rows))"
proof -
  let ?c0 = "c\<lparr>article_to_products := [], product_to_articles := [], synonym_map := [],
                all_products := []\<rparr>"
  have "get_articles_by_product (refresh loads now rows db_products c) n =
        get_articles_by_product (fold add_product rows ?c0) n"
    by (simp add: get_articles_by_product_def refresh_def Let_def)
  also have "\<dots> = map fst (filter (\<lambda>an. snd an = n) (valid_rows rows))"
    by (simp add: get_articles_fold_add_product) (simp add: get_articles_by_product_def)
  finally show ?thesis .
qed

lemma get_all_products_refresh:
  "get_all_products (refresh loads now rows db_products c) = map entry_of_row (valid_rows rows)"
  by (simp add: get_all_products_def refresh_def Let_def all_products_fold_add_product)


lemma cache_inv_articles:
  "cache_inv c \<Longrightarrow> a \<in> set (get_articles_by_product c n) \<Longrightarrow>
   a \<noteq> [] \<and> n \<noteq> [] \<and> (\<exists>p \<in> set (get_products_by_article c a). pv_name p = n)"
  unfolding cache_inv_def by blast

lemma cache_inv_names:
  "cache_inv c \<Longrightarrow> (get_articles_by_product c n \<noteq> []) = (n \<in> pe_name ` set (all_products c))"
  unfolding cache_inv_def by blast

lemma exact_product_strategy_empty:
  "get_articles_by_product c name = [] \<Longrightarrow> exact_product_strategy c (Some name) = Inr None"
  by (simp add: exact_product_strategy_def truthy_def)

lemma synonym_strategy_Some:
  "name \<noteq> [] \<Longrightarrow> get_synonym_match c name = Some e \<Longrightarrow>
   synonym_strategy c (Some name) =
     Inr (Some (se_article e, se_product e, se_score e, Some ''synonym_match''))"
  by (simp add: synonym_strategy_def truthy_def)

lemma synonym_strategy_None:
  "get_synonym_match c name = None \<Longrightarrow> synonym_strategy c (Some name) = Inr None"
  by (simp add: synonym_strategy_def truthy_def)

subsection \<open>Token disambiguation\<close>

lemma finite_extract_tokens [simp]: "finite (extract_tokens text)"
  by (simp add: extract_tokens_def Let_def)

lemma token_similarity_le_one:
  assumes "finite A" and "finite B"
  shows "token_similarity A B \<le> 1"
proof -
  have "card (A \<inter> B) \<le> card (A \<union> B)"
    using assms by (intro card_mono) auto
  then show ?thesis
    by (auto simp: token_similarity_def Let_def divide_le_eq_1)
qed

lemma token_similarity_self:
  assumes "finite A" and "A \<noteq> {}"
  shows "token_similarity A A = 1"
proof -
  have "0 < card A" using assms by (simp add: card_gt_0_iff)
  then show ?thesis using assms by (simp add: token_similarity_def)
qed

lemma token_step_top:
  assumes "finite T"
  shows "token_step T a p (Some a0, 1) = (Some a0, 1)"
  using token_similarity_le_one[OF assms finite_extract_tokens, of "pv_name p"]
  by (simp add: token_step_def Let_def)

lemma fold_token_step_top:
  assumes "finite T"
  shows "fold (token_step T a) ps (Some a0, 1) = (Some a0, 1)"
  by (induction ps) (simp_all add: token_step_top[OF assms])

lemma fold_articles_top:
  assumes "finite T"
  shows "fold (\<lambda>article. fold (token_step T article) (bucket article)) as (Some a0, 1) = (Some a0, 1)"
  by (induction as) (simp_all add: fold_token_step_top[OF assms])

lemma fold_token_step_hit:
  assumes "finite T"
      and "p \<in> set ps"
      and "token_similarity T (extract_tokens (pv_name p)) = 1"
      and "snd best \<le> 1"
      and "snd best = 1 \<longrightarrow> fst best = Some a"
  shows "fold (token_step T a) ps best = (Some a, 1)"
  using assms(2-5)
proof (induction ps arbitrary: best)
  case Nil
  then show ?case by simp
next
  case (Cons q ps)
  let ?s = "token_similarity T (extract_tokens (pv_name q))"
  have le: "?s \<le> 1" using assms(1) by (intro token_similarity_le_one) simp_all
  show ?case
  proof (cases "q = p")
    case True
    have "token_step T a q best = (Some a, 1)"
      using True Cons.prems(2,3,4) by (cases best) (auto simp: token_step_def Let_def)
    then show ?thesis by (simp add: fold_token_step_top[OF assms(1)])
  next
    case False
    then have mem: "p \<in> set ps" using Cons.prems(1) by simp
    have "fold (token_step T a) ps (token_step T a q best) = (Some a, 1)"
    proof (rule Cons.IH[OF mem Cons.prems(2)])
      show "snd (token_step T a q best) \<le> 1"
        using le Cons.prems(3) by (simp add: token_step_def Let_def)
      show "snd (token_step T a q best) = 1 \<longrightarrow> fst (token_step T a q best) = Some a"
        using Cons.prems(4) by (simp add: token_step_def Let_def)
    qed
    then show ?thesis by simp
  qed
qed

lemma choose_best_article_first:
  assumes inv: "cache_inv c"
      and arts: "get_articles_by_product c name = a0 # rest"
  shows "choose_best_article_by_tokens c name (a0 # rest) =
           (if extract_tokens name = {} then None else Some a0)"
proof (cases "extract_tokens name = {}")
  case True
  then show ?thesis by (simp add: choose_best_article_by_tokens_def)
next
  case False
  let ?T = "extract_tokens name"
  have "a0 \<in> set (get_articles_by_product c name)" using arts by simp
  from cache_inv_articles[OF inv this]
  obtain p where p: "p \<in> set (get_products_by_article c a0)" "pv_name p = name" by blast
  have one: "token_similarity ?T (extract_tokens (pv_name p)) = 1"
    using False p(2) by (simp add: token_similarity_self)
  have first: "fold (token_step ?T a0) (get_products_by_article c a0) (None, 0) = (Some a0, 1)"
    by (rule fold_token_step_hit[OF _ p(1) one]) simp_all
  have "fold (\<lambda>article. fold (token_step ?T article) (get_products_by_article c article))
          (a0 # rest) (None, 0) = (Some a0, 1)"
    by (simp add: first fold_articles_top)
  then show ?thesis using False by (simp add: choose_best_article_by_tokens_def Let_def)
qed

subsection \<open>Suggestions\<close>

lemma pending_track_usage [simp]: "pending_synonyms (track_usage x mgr) = pending_synonyms mgr"
  by (simp add: track_usage_def)

lemma fuzzy_match_product_strong:
  assumes "match_product fz c (Some name) input_article threshold = Inr (Some a, p, score, m)"
      and "name \<noteq> []" and "a \<noteq> []" and "85 \<le> score" and "score < 100"
  shows "\<exists>mgr'. fuzzy_match_product fz c now mgr (Some name) input_article threshold =
                  Inr ((Some a, p, score, m), mgr') \<and>
               pending_synonyms mgr' = pending_synonyms mgr @
                 [\<lparr>sg_synonym = name, sg_article = a, sg_product = p, sg_score = score,
                   sg_suggested_at = now, sg_status = ''pending''\<rparr>]"
  using assms
  by (simp add: fuzzy_match_product_def truthy_def suggest_synonym_def Let_def)

subsection \<open>Token enhancement\<close>

lemma fold_enhance_step:
  "s \<le> snd (fold (enhance_step T) xs (b, s)) \<and>
   (\<forall>m \<in> set xs. combined_score T m \<le> snd (fold (enhance_step T) xs (b, s))) \<and>
   (if s < snd (fold (enhance_step T) xs (b, s))
    then \<exists>ys w zs. xs = ys @ w # zs \<and>
           combined_score T w = snd (fold (enhance_step T) xs (b, s)) \<and>
           (\<forall>m \<in> set ys. combined_score T m < combined_score T w) \<and>
           fst (fold (enhance_step T) xs (b, s)) = (fst w, py_int (combined_score T w))
    else fold (enhance_step T) xs (b, s) = (b, s))"
proof (induction xs arbitrary: b s)
  case Nil
  show ?case by simp
next
  case (Cons x xs)
  let ?cx = "combined_score T x"
  show ?case
  proof (cases "?cx > s")
    case True
    let ?b' = "(fst x, py_int ?cx)"
    let ?st = "fold (enhance_step T) xs (?b', ?cx)"
    have step: "fold (enhance_step T) (x # xs) (b, s) = ?st"
      using True by (simp add: enhance_step_def Let_def)
    note IH = Cons.IH[where b = ?b' and s = ?cx]
    have ge: "?cx \<le> snd ?st" using IH by simp
    show ?thesis
    proof (cases "?cx < snd ?st")
      case lt: True
      with IH obtain ys w zs where w: "xs = ys @ w # zs" "combined_score T w = snd ?st"
          "\<forall>m \<in> set ys. combined_score T m < combined_score T w"
          "fst ?st = (fst w, py_int (combined_score T w))"
        by auto
      have "x # xs = (x # ys) @ w # zs" using w(1) by simp
      moreover have "\<forall>m \<in> set (x # ys). combined_score T m < combined_score T w"
        using w(2,3) lt by simp
      ultimately have "\<exists>ys w zs. x # xs = ys @ w # zs \<and>
           combined_score T w = snd ?st \<and>
           (\<forall>m \<in> set ys. combined_score T m < combined_score T w) \<and>
           fst ?st = (fst w, py_int (combined_score T w))"
        using w(2,4) by blast
      moreover have "s < snd ?st" using True lt by simp
      moreover have "\<forall>m \<in> set (x # xs). combined_score T m \<le> snd ?st"
        using IH ge by simp
      ultimately show ?thesis unfolding step by simp
    next
      case False
      with IH have eq: "?st = (?b', ?cx)" by simp
      have "x # xs = [] @ x # xs" by simp
      then have "\<exists>ys w zs. x # xs = ys @ w # zs \<and>
           combined_score T w = ?cx \<and>
           (\<forall>m \<in> set ys. combined_score T m < combined_score T w) \<and>
           ?b' = (fst w, py_int (combined_score T w))"
        by (intro exI[of _ "[]"] exI[of _ x] exI[of _ xs]) simp
      moreover have "\<forall>m \<in> set (x # xs). combined_score T m \<le> ?cx"
        using IH eq by simp
      ultimately show ?thesis unfolding step eq using True by simp
    qed
  next
    case False
    let ?st = "fold (enhance_step T) xs (b, s)"
    have step: "fold (enhance_step T) (x # xs) (b, s) = ?st"
      using False by (simp add: enhance_step_def Let_def)
    note IH = Cons.IH[where b = b and s = s]
    have ge: "s \<le> snd ?st" using IH by simp
    show ?thesis
    proof (cases "s < snd ?st")
      case lt: True
      with IH obtain ys w zs where w: "xs = ys @ w # zs" "combined_score T w = snd ?st"
          "\<forall>m \<in> set ys. combined_score T m < combined_score T w"
          "fst ?st = (fst w, py_int (combined_score T w))"
        by auto
      have "x # xs = (x # ys) @ w # zs" using w(1) by simp
      moreover have "\<forall>m \<in> set (x # ys). combined_score T m < combined_score T w"
        using w(2,3) lt False by simp
      ultimately have "\<exists>ys w zs. x # xs = ys @ w # zs \<and>
           combined_score T w = snd ?st \<and>
           (\<forall>m \<in> set ys. combined_score T m < combined_score T w) \<and>
           fst ?st = (fst w, py_int (combined_score T w))"
        using w(2,4) by blast
      moreover have "\<forall>m \<in> set (x # xs). combined_score T m \<le> snd ?st"
        using IH ge False by simp
      ultimately show ?thesis unfolding step using lt by simp
    next
      case nlt: False
      with IH have eq: "?st = (b, s)" by simp
      have "\<forall>m \<in> set (x # xs). combined_score T m \<le> s"
        using IH eq False by simp
      then show ?thesis unfolding step eq by simp
    qed
  qed
qed

lemma fold_enhance_step_upper:
  "m \<in> set xs \<Longrightarrow> combined_score T m \<le> snd (fold (enhance_step T) xs (b, s))"
  using fold_enhance_step[of s T xs b] by blast

lemma fold_enhance_step_first_max:
  assumes "s < snd (fold (enhance_step T) xs (b, s))"
  shows "\<exists>ys w zs. xs = ys @ w # zs \<and>
           combined_score T w = snd (fold (enhance_step T) xs (b, s)) \<and>
           (\<forall>m \<in> set ys. combined_score T m < combined_score T w) \<and>
           fst (fold (enhance_step T) xs (b, s)) = (fst w, py_int (combined_score T w))"
proof -
  have "if s < snd (fold (enhance_step T) xs (b, s))
    then \<exists>ys w zs. xs = ys @ w # zs \<and>
           combined_score T w = snd (fold (enhance_step T) xs (b, s)) \<and>
           (\<forall>m \<in> set ys. combined_score T m < combined_score T w) \<and>
           fst (fold (enhance_step T) xs (b, s)) = (fst w, py_int (combined_score T w))
    else fold (enhance_step T) xs (b, s) = (b, s)"
    by (rule conjunct2[OF conjunct2[OF fold_enhance_step]])
  with assms show ?thesis by (simp only: if_True)
qed

lemma valid_matches_names:
  assumes "m \<in> set (valid_matches_of fz c name th)"
  shows "fst m \<in> pe_name ` set (get_all_products c)"
proof -
  have "m \<in> set (scored (token_sort_ratio fz) name (map pe_name (get_all_products c)))"
    using assms
    by (auto simp: valid_matches_of_def process_extract_def dest!: in_set_takeD)
  then show ?thesis by (auto simp: scored_def)
qed

lemma fold_token_step_fst:
  "fst (fold (token_step T a) ps best) = fst best \<or> fst (fold (token_step T a) ps best) = Some a"
proof (induction ps arbitrary: best)
  case Nil
  show ?case by simp
next
  case (Cons p ps)
  have "fst (token_step T a p best) = fst best \<or> fst (token_step T a p best) = Some a"
    by (simp add: token_step_def Let_def)
  with Cons.IH[of "token_step T a p best"] Cons.IH[of "(Some a, x)" for x] show ?case
    by (cases "token_step T a p best") auto
qed

lemma fold_articles_fst:
  "fst (fold (\<lambda>article. fold (token_step T article) (bucket article)) as best) = fst best \<or>
   fst (fold (\<lambda>article. fold (token_step T article) (bucket article)) as best) \<in> Some ` set as"
proof (induction as arbitrary: best)
  case Nil
  show ?case by simp
next
  case (Cons a as)
  let ?b = "fold (token_step T a) (bucket a) best"
  from fold_token_step_fst[of T a "bucket a" best] Cons.IH[of ?b]
  show ?case by auto
qed

lemma choose_best_article_mem:
  assumes "choose_best_article_by_tokens c name as = Some a"
  shows "a \<in> set as"
proof -
  let ?T = "extract_tokens name"
  let ?best = "fold (\<lambda>article. fold (token_step ?T article) (get_products_by_article c article))
                 as (None, 0)"
  from assms have "fst ?best = Some a"
    by (simp add: choose_best_article_by_tokens_def Let_def split: if_splits)
  with fold_articles_fst[of ?T "get_products_by_article c" as "(None, 0)"]
  show ?thesis by auto
qed

lemma pick_article:
  assumes "articles \<noteq> []"
  shows "\<exists>article \<in> set articles.
           (if length articles > 1
            then (case truthy (choose_best_article_by_tokens c name articles) of
                    Some best_article \<Rightarrow> Inr best_article
                  | None \<Rightarrow> index0 articles)
            else index0 articles) = (Inr article :: py_error + string)"
proof (cases "truthy (choose_best_article_by_tokens c name articles)")
  case None
  then show ?thesis using assms by (auto simp: index0_Inr)
next
  case (Some a)
  then have "choose_best_article_by_tokens c name articles = Some a"
    by (simp add: truthy_Some)
  from choose_best_article_mem[OF this] Some show ?thesis
    using assms by (auto simp: index0_Inr)
qed

lemma enhance_with_tokens_max:
  assumes "\<exists>m \<in> set (m0 # ms). combined_score (extract_tokens name) m > real_of_int (snd m0)"
  shows "\<exists>ys w zs. m0 # ms = ys @ w # zs \<and>
           (\<forall>m \<in> set ys. combined_score (extract_tokens name) m < combined_score (extract_tokens name) w) \<and>
           (\<forall>m \<in> set zs. combined_score (extract_tokens name) m \<le> combined_score (extract_tokens name) w) \<and>
           enhance_with_tokens name (m0 # ms) ap =
             Inr (fst w, py_int (combined_score (extract_tokens name) w))"
proof -
  let ?T = "extract_tokens name"
  let ?st = "fold (enhance_step ?T) (m0 # ms) (m0, real_of_int (snd m0))"
  from assms obtain m where m: "m \<in> set (m0 # ms)" "combined_score ?T m > real_of_int (snd m0)"
    by blast
  from fold_enhance_step_upper[OF m(1), of ?T m0 "real_of_int (snd m0)"]
  have "combined_score ?T m \<le> snd ?st" .
  with m(2) have lt: "real_of_int (snd m0) < snd ?st" by linarith
  from fold_enhance_step_first_max[OF lt]
  obtain ys w zs where w: "m0 # ms = ys @ w # zs" "combined_score ?T w = snd ?st"
      "\<forall>m \<in> set ys. combined_score ?T m < combined_score ?T w"
      "fst ?st = (fst w, py_int (combined_score ?T w))"
    by blast
  have all: "\<forall>m \<in> set (m0 # ms). combined_score ?T m \<le> combined_score ?T w"
    unfolding w(2) using fold_enhance_step_upper[of _ "m0 # ms" ?T m0 "real_of_int (snd m0)"]
    by blast
  have "\<forall>m \<in> set zs. combined_score ?T m \<le> combined_score ?T w"
  proof
    fix m assume "m \<in> set zs"
    then have "m \<in> set (m0 # ms)" unfolding w(1) by simp
    with all show "combined_score ?T m \<le> combined_score ?T w" by blast
  qed
  moreover have "enhance_with_tokens name (m0 # ms) ap = Inr (fst w, py_int (combined_score ?T w))"
    unfolding enhance_with_tokens_def Let_def index0_def list.case sum.case w(4) ..
  ultimately show ?thesis using w(1,3) by blast
qed

subsection \<open>The synonym index\<close>

lemma dict_set_keys:
  "map fst (dict_set k v d) = (if k \<in> set (map fst d) then map fst d else map fst d @ [k])"
  by (induction d) force+

lemma distinct_dict_set: "distinct (map fst d) \<Longrightarrow> distinct (map fst (dict_set k v d))"
  by (simp add: dict_set_keys)

lemma distinct_add_synonym:
  "distinct (map fst (synonym_map c)) \<Longrightarrow> distinct (map fst (synonym_map (add_synonym r s c)))"
  by (simp add: add_synonym_def distinct_dict_set)

lemma distinct_fold_add_synonym:
  "distinct (map fst (synonym_map c)) \<Longrightarrow>
   distinct (map fst (synonym_map (fold (add_synonym r) syns c)))"
  by (induction syns arbitrary: c) (simp_all add: distinct_add_synonym)

lemma distinct_fold_add_synonyms:
  "distinct (map fst (synonym_map c)) \<Longrightarrow>
   distinct (map fst (synonym_map (fold (add_synonyms loads) rows c)))"
proof (induction rows arbitrary: c)
  case Nil
  then show ?case by simp
next
  case (Cons r rows)
  have "distinct (map fst (synonym_map (add_synonyms loads r c)))"
    unfolding add_synonyms_eq using Cons.prems by (rule distinct_fold_add_synonym)
  from Cons.IH[OF this] show ?case by simp
qed

lemma distinct_synonym_map_refresh:
  "distinct (map fst (synonym_map (refresh loads now products_data db_products c)))"
  by (simp add: refresh_def Let_def distinct_fold_add_synonyms)

text \<open>Of the entries written under one key, the last one is the one found.\<close>

lemma last_writer:
  assumes "\<exists>x \<in> set xs. f x = k"
  shows "\<exists>pre x post. xs = pre @ x # post \<and> f x = k \<and> (\<forall>y \<in> set post. f y \<noteq> k) \<and>
           map_of (rev (map (\<lambda>x. (f x, g x)) xs)) k = Some (g x)"
  using assms
proof (induction xs rule: rev_induct)
  case Nil
  then show ?case by simp
next
  case (snoc y ys)
  show ?case
  proof (cases "f y = k")
    case True
    have "ys @ [y] = ys @ y # []" by simp
    moreover have "map_of (rev (map (\<lambda>x. (f x, g x)) (ys @ [y]))) k = Some (g y)"
      using True by simp
    ultimately show ?thesis using True by (intro exI[of _ ys] exI[of _ y] exI[of _ "[]"]) simp
  next
    case False
    with snoc.prems have "\<exists>x \<in> set ys. f x = k" by auto
    from snoc.IH[OF this] obtain pre x post where x: "ys = pre @ x # post" "f x = k"
        "\<forall>y \<in> set post. f y \<noteq> k"
        "map_of (rev (map (\<lambda>x. (f x, g x)) ys)) k = Some (g x)"
      by blast
    have "ys @ [y] = pre @ x # (post @ [y])" using x(1) by simp
    moreover have "\<forall>z \<in> set (post @ [y]). f z \<noteq> k" using x(3) False by simp
    moreover have "map_of (rev (map (\<lambda>x. (f x, g x)) (ys @ [y]))) k = Some (g x)"
      using x(4) False by simp
    ultimately show ?thesis using x(2) by blast
  qed
qed

section \<open>The claims\<close>

text \<open>
  Claim C6. \<open>match_product\<close> is total and raises nothing: for every cache, optional
  name, optional article number and threshold it returns a tuple. When no strategy
  produces a match (in particular when name and article number are both absent or
  empty) the tuple is exactly \<open>(None, None, 0, None)\<close>, and this is the only returned
  tuple without a method.
\<close>

theorem match_product_total_no_match:
  "\<exists>r. match_product fz c input_product input_article threshold = Inr r \<and>
        (exact_article_strategy fz c input_product input_article = Inr None \<and>
         exact_product_strategy c input_product = Inr None \<and>
         synonym_strategy c input_product = Inr None \<and>
         fuzzy_article_strategy fz c input_article = Inr None \<and>
         fuzzy_product_strategy fz c input_product threshold = Inr None
           \<longrightarrow> r = (None, None, 0, None)) \<and>
        (truthy input_product = None \<and> truthy input_article = None \<longrightarrow> r = (None, None, 0, None)) \<and>
        (snd (snd (snd r)) = None \<longrightarrow> r = (None, None, 0, None))"
proof -
  obtain r where r: "match_product fz c input_product input_article threshold = Inr r"
    using match_product_total by blast
  have all_none: "r = (None, None, 0, None)"
    if "exact_article_strategy fz c input_product input_article = Inr None \<and>
        exact_product_strategy c input_product = Inr None \<and>
        synonym_strategy c input_product = Inr None \<and>
        fuzzy_article_strategy fz c input_article = Inr None \<and>
        fuzzy_product_strategy fz c input_product threshold = Inr None"
  proof -
    have "match_product fz c input_product input_article threshold = Inr no_match"
      using that by (intro match_product_all_none) simp_all
    with r show ?thesis by (simp add: no_match_def)
  qed
  have absent: "r = (None, None, 0, None)"
    if "truthy input_product = None \<and> truthy input_article = None"
  proof -
    from that have n: "truthy input_product = None" and a: "truthy input_article = None"
      by simp_all
    have "match_product fz c input_product input_article threshold = Inr no_match"
      by (intro match_product_all_none strategies_absent[OF n a])
    with r show ?thesis by (simp add: no_match_def)
  qed
  have meth: "r = (None, None, 0, None)" if "snd (snd (snd r)) = None"
    using match_product_method_None[OF r that] by (simp add: no_match_def)
  show ?thesis
  proof (intro exI[of _ r] conjI impI)
    show "match_product fz c input_product input_article threshold = Inr r" by (rule r)
  qed (rule all_none absent meth, assumption)+
qed

theorem match_product_total_no_match_witness:
  "match_product ex_fuzz ex_cache None (Some []) 80 = Inr (None, None, 0, None) \<and>
   match_product ex_fuzz ex_cache (Some ''Tenergy 64'') (Some ''99'') 80 = Inr (None, None, 0, None)"
proof -
  have t: "truthy None = None \<and> truthy (Some []) = None"
    by (simp add: truthy_def)
  have s: "exact_article_strategy ex_fuzz ex_cache (Some ''Tenergy 64'') (Some ''99'') = Inr None \<and>
         exact_product_strategy ex_cache (Some ''Tenergy 64'') = Inr None \<and>
         synonym_strategy ex_cache (Some ''Tenergy 64'') = Inr None \<and>
         fuzzy_article_strategy ex_fuzz ex_cache (Some ''99'') = Inr None \<and>
         fuzzy_product_strategy ex_fuzz ex_cache (Some ''Tenergy 64'') 80 = Inr None"
    by code_simp
  show ?thesis
    using match_product_total_no_match[of ex_fuzz ex_cache None "Some []" 80]
      match_product_total_no_match[of ex_fuzz ex_cache "Some ''Tenergy 64''" "Some ''99''" 80] t s
    by auto
qed



text \<open>
  Claim C10. \<open>approve_synonym\<close> leaves the manager as it was whenever it returns
  \<open>False\<close>: no product for the article, the synonym already stored, or an exception of
  the database module. The usage counters never change, and pending suggestions are
  removed only by a call that returns \<open>True\<close>, which happens exactly when the product
  exists, the synonym is new and the update does not raise.
\<close>

theorem approve_synonym_failure_atomic:
  assumes "approve_synonym dbm loads synonym article (mgr, db) = (ok, mgr', db')"
  shows "usage_stats mgr' = usage_stats mgr \<and>
         (\<not> ok \<longrightarrow> mgr' = mgr) \<and>
         (pending_synonyms mgr' \<noteq> pending_synonyms mgr \<longrightarrow> ok) \<and>
         (ok \<longrightarrow> pending_synonyms mgr' =
                  filter (\<lambda>s. sg_synonym s \<noteq> synonym \<or> sg_article s \<noteq> article) (pending_synonyms mgr)) \<and>
         (ok = (\<exists>product. get_product_by_article dbm db article = Inr (Some product) \<and>
                  synonym \<notin> set (existing_synonyms_of loads product) \<and>
                  fst (update_product dbm db article (existing_synonyms_of loads product @ [synonym])) = None))"
  using assms
  by (auto simp: approve_synonym_def Let_def split: sum.splits option.splits if_splits prod.splits)

theorem approve_synonym_failure_atomic_witness:
  "approve_synonym ex_dbm ex_loads ''Rakza Black'' ''12345'' (ex_mgr, ex_db) = (False, ex_mgr, ex_db) \<and>
   approve_synonym ex_dbm ex_loads ''R9 Black'' ''12345'' (ex_mgr, ex_db) = (False, ex_mgr, ex_db) \<and>
   approve_synonym ex_dbm ex_loads ''Rakza Black'' ''99999'' (ex_mgr, ex_db) = (False, ex_mgr, ex_db)"
proof -
  have 1: "approve_synonym ex_dbm ex_loads ''Rakza Black'' ''12345'' (ex_mgr, ex_db) = (False, ex_mgr, ex_db)"
    by code_simp
  have 2: "approve_synonym ex_dbm ex_loads ''R9 Black'' ''12345'' (ex_mgr, ex_db) = (False, ex_mgr, ex_db)"
    by code_simp
  have 3: "approve_synonym ex_dbm ex_loads ''Rakza Black'' ''99999'' (ex_mgr, ex_db) = (False, ex_mgr, ex_db)"
    by code_simp
  show ?thesis using approve_synonym_failure_atomic[OF 1] 1 2 3 by simp
qed

text \<open>
  Claim C9. The exact-name lookup is case-sensitive: in every refreshed cache, a query
  name that is not character for character the name of a stored product has no
  articles in the by-name index, the exact-name strategy produces nothing, and the
  result of \<open>match_product\<close> carries none of the exact-name methods.
\<close>

theorem exact_name_case_sensitive:
  assumes "c = refresh loads now products_data db_products c_old"
      and "name \<notin> pe_name ` set (get_all_products c)"
  shows "get_articles_by_product c name = [] \<and>
         exact_product_strategy c (Some name) = Inr None \<and>
         (\<exists>r. match_product fz c (Some name) input_article threshold = Inr r \<and>
              snd (snd (snd r)) \<notin> {Some ''exact_product'', Some ''exact_product_token_disambiguated'',
                                     Some ''exact_product_first''})"
proof -
  have inv: "cache_inv c" using assms(1) by (simp add: cache_inv_refresh)
  have empty: "get_articles_by_product c name = []"
    using cache_inv_names[OF inv, of name] assms(2) by (simp add: get_all_products_def)
  have s2: "exact_product_strategy c (Some name) = Inr None"
    using empty by (rule exact_product_strategy_empty)
  obtain r where r: "match_product fz c (Some name) input_article threshold = Inr r"
    using match_product_total by blast
  have "snd (snd (snd r)) \<notin> {Some ''exact_product'', Some ''exact_product_token_disambiguated'',
                                Some ''exact_product_first''}"
    using r
  proof (cases rule: match_product_origin)
    case s1
    from exact_article_strategy_method[OF s1] show ?thesis by auto
  next
    case s2': s2
    with s2 show ?thesis by simp
  next
    case s3
    from synonym_strategy_method[OF s3] show ?thesis by simp
  next
    case s4
    from fuzzy_article_strategy_method[OF s4] show ?thesis by simp
  next
    case s5
    from fuzzy_product_strategy_method[OF s5] show ?thesis by simp
  next
    case none
    then show ?thesis by (simp add: no_match_def)
  qed
  with empty s2 r show ?thesis by blast
qed

theorem exact_name_case_sensitive_witness:
  "ex_cache = refresh ex_loads 0 ex_products ex_db init_cache \<and>
   ''rakza 9 black 2.0mm'' \<notin> pe_name ` set (get_all_products ex_cache) \<and>
   get_articles_by_product ex_cache ''rakza 9 black 2.0mm'' = [] \<and>
   get_articles_by_product ex_cache ''Rakza 9 Black 2.0mm'' = [''12345''] \<and>
   match_product ex_fuzz ex_cache (Some ''rakza 9 black 2.0mm'') None 80 =
     Inr (Some ''12345'', Some ''Rakza 9 Black 2.0mm'', 100, Some ''fuzzy_product_token_enhanced'')"
proof -
  have n: "''rakza 9 black 2.0mm'' \<notin> pe_name ` set (get_all_products ex_cache)"
    by code_simp
  have m: "match_product ex_fuzz ex_cache (Some ''rakza 9 black 2.0mm'') None 80 =
     Inr (Some ''12345'', Some ''Rakza 9 Black 2.0mm'', 100, Some ''fuzzy_product_token_enhanced'')"
    by code_simp
  have e: "get_articles_by_product ex_cache ''Rakza 9 Black 2.0mm'' = [''12345'']"
    by code_simp
  from exact_name_case_sensitive[OF ex_cache_def n, of ex_fuzz None 80] n m e
  show ?thesis by (simp add: ex_cache_def)
qed




text \<open>
  Claim C4, as amended. Synonym matching is case-insensitive and exact-only. In a
  refreshed cache, for a non-empty query name to which no exact article or exact name
  match applies: if the synonym index holds a record under the lower-cased name,
  \<open>match_product\<close> returns the article and product of that record with score 100 and
  method \<open>synonym_match\<close>. The index holds such a record exactly when a stored synonym
  has the same lower-cased text as the name, and the record is then that of the last
  such synonym in the order \<open>refresh\<close> reads them. If no stored synonym has the same
  lower-cased text (one character short, say), the method is never \<open>synonym_match\<close>.
\<close>

theorem synonym_match_case_insensitive:
  assumes "c = refresh loads now products_data db_products c_old"
  shows "(name \<noteq> [] \<and>
          exact_article_strategy fz c (Some name) input_article = Inr None \<and>
          exact_product_strategy c (Some name) = Inr None \<and>
          (lower name, e) \<in> set (synonym_map c)
          \<longrightarrow>
          match_product fz c (Some name) input_article threshold =
            Inr (se_article e, se_product e, 100, Some ''synonym_match'')) \<and>
         ((\<exists>(s, r) \<in> set (stored_synonyms loads db_products). lower s = lower name)
          \<longrightarrow>
          (\<exists>pre s r post.
             stored_synonyms loads db_products = pre @ (s, r) # post \<and>
             lower s = lower name \<and>
             (\<forall>(s', r') \<in> set post. lower s' \<noteq> lower name) \<and>
             (lower name, entry_of r) \<in> set (synonym_map c))) \<and>
         ((\<forall>(s, r) \<in> set (stored_synonyms loads db_products). lower s \<noteq> lower name)
          \<longrightarrow>
          lower name \<notin> fst ` set (synonym_map c) \<and>
          (\<exists>res. match_product fz c (Some name) input_article threshold = Inr res \<and>
                 snd (snd (snd res)) \<noteq> Some ''synonym_match''))"
proof (intro conjI impI)
  assume h: "name \<noteq> [] \<and>
          exact_article_strategy fz c (Some name) input_article = Inr None \<and>
          exact_product_strategy c (Some name) = Inr None \<and>
          (lower name, e) \<in> set (synonym_map c)"
  have d: "distinct (map fst (synonym_map c))"
    unfolding assms by (rule distinct_synonym_map_refresh)
  from h d have e: "get_synonym_match c name = Some e"
    by (simp add: get_synonym_match_def)
  from get_synonym_match_refresh_Some[OF e[unfolded assms]]
  have sc: "se_score e = 100" by (auto simp: entry_of_def)
  have s3: "synonym_strategy c (Some name) =
      Inr (Some (se_article e, se_product e, 100, Some ''synonym_match''))"
    using h synonym_strategy_Some[OF _ e] sc by simp
  show "match_product fz c (Some name) input_article threshold =
      Inr (se_article e, se_product e, 100, Some ''synonym_match'')"
    using h by (simp add: match_product_def or_else_def s3)
next
  assume "\<exists>(s, r) \<in> set (stored_synonyms loads db_products). lower s = lower name"
  then have "\<exists>x \<in> set (stored_synonyms loads db_products). lower (fst x) = lower name"
    by (auto simp: case_prod_beta)
  from last_writer[OF this, of "\<lambda>x. entry_of (snd x)"]
  obtain pre x post where x: "stored_synonyms loads db_products = pre @ x # post"
      "lower (fst x) = lower name" "\<forall>y \<in> set post. lower (fst y) \<noteq> lower name"
      "map_of (rev (map (\<lambda>x. (lower (fst x), entry_of (snd x)))
                      (stored_synonyms loads db_products))) (lower name) = Some (entry_of (snd x))"
    by blast
  have "map_of (synonym_map c) (lower name) = Some (entry_of (snd x))"
    using x(4) unfolding assms synonym_map_refresh case_prod_beta .
  then have "(lower name, entry_of (snd x)) \<in> set (synonym_map c)"
    by (rule map_of_SomeD)
  with x(1,2,3) show "\<exists>pre s r post.
             stored_synonyms loads db_products = pre @ (s, r) # post \<and>
             lower s = lower name \<and>
             (\<forall>(s', r') \<in> set post. lower s' \<noteq> lower name) \<and>
             (lower name, entry_of r) \<in> set (synonym_map c)"
    by (intro exI[of _ pre] exI[of _ "fst x"] exI[of _ "snd x"] exI[of _ post])
       (auto simp: case_prod_beta)
next
  assume h: "\<forall>(s, r) \<in> set (stored_synonyms loads db_products). lower s \<noteq> lower name"
  then have n: "get_synonym_match c name = None"
    unfolding assms get_synonym_match_refresh_None .
  then show "lower name \<notin> fst ` set (synonym_map c)"
    by (simp add: get_synonym_match_def map_of_eq_None_iff)
  from n have s3: "synonym_strategy c (Some name) = Inr None" by (rule synonym_strategy_None)
  obtain res where r: "match_product fz c (Some name) input_article threshold = Inr res"
    using match_product_total by blast
  have "snd (snd (snd res)) \<noteq> Some ''synonym_match''"
    using r
  proof (cases rule: match_product_origin)
    case s1
    from exact_article_strategy_method[OF s1] show ?thesis by auto
  next
    case s2
    from exact_product_strategy_method[OF s2] show ?thesis by auto
  next
    case s3': s3
    with s3 show ?thesis by simp
  next
    case s4
    from fuzzy_article_strategy_method[OF s4] show ?thesis by simp
  next
    case s5
    from fuzzy_product_strategy_method[OF s5] show ?thesis by simp
  next
    case none
    then show ?thesis by (simp add: no_match_def)
  qed
  with r show "\<exists>res. match_product fz c (Some name) input_article threshold = Inr res \<and>
                 snd (snd (snd res)) \<noteq> Some ''synonym_match''"
    by blast
qed

theorem synonym_match_case_insensitive_witness:
  "(''r9 black'', entry_of (hd ex_db)) \<in> set (synonym_map ex_cache) \<and>
   lower ''r9 black'' = ''r9 black'' \<and>
   match_product ex_fuzz ex_cache (Some ''r9 black'') None 80 =
     Inr (Some ''12345'', Some ''Rakza 9 Black 2.0mm'', 100, Some ''synonym_match'') \<and>
   match_product ex_fuzz ex_cache (Some ''R9 BLACK'') None 80 =
     Inr (Some ''12345'', Some ''Rakza 9 Black 2.0mm'', 100, Some ''synonym_match'') \<and>
   stored_synonyms ex_loads ex_db = [(''R9 Black'', hd ex_db)] \<and>
   lower ''R9 Black'' \<noteq> lower ''r9 blac'' \<and>
   match_product ex_fuzz ex_cache (Some ''r9 blac'') None 80 = Inr (None, None, 0, None)"
proof -
  have st: "stored_synonyms ex_loads ex_db = [(''R9 Black'', hd ex_db)]" by code_simp
  have mem: "(''r9 black'', entry_of (hd ex_db)) \<in> set (synonym_map ex_cache)" by code_simp
  have l: "lower ''r9 black'' = ''r9 black''" by code_simp
  have l2: "lower ''R9 BLACK'' = ''r9 black''" by code_simp
  have l': "lower ''R9 Black'' \<noteq> lower ''r9 blac''" by code_simp
  have s1: "exact_article_strategy ex_fuzz ex_cache (Some name) None = Inr None" for name
    by (simp add: exact_article_strategy_def truthy_def)
  have s2: "exact_product_strategy ex_cache (Some ''r9 black'') = Inr None" by code_simp
  have s2': "exact_product_strategy ex_cache (Some ''R9 BLACK'') = Inr None" by code_simp
  have m: "match_product ex_fuzz ex_cache (Some ''r9 blac'') None 80 = Inr (None, None, 0, None)"
    by code_simp
  have e: "se_article (entry_of (hd ex_db)) = Some ''12345'' \<and>
           se_product (entry_of (hd ex_db)) = Some ''Rakza 9 Black 2.0mm''"
    by (simp add: ex_db_def entry_of_def)
  note inst = synonym_match_case_insensitive[OF ex_cache_def,
      of _ ex_fuzz None "entry_of (hd ex_db)" 80, THEN conjunct1, rule_format]
  have a: "match_product ex_fuzz ex_cache (Some ''r9 black'') None 80 =
     Inr (Some ''12345'', Some ''Rakza 9 Black 2.0mm'', 100, Some ''synonym_match'')"
    using inst[of "''r9 black''"] s1 s2 l mem e by simp
  have b: "match_product ex_fuzz ex_cache (Some ''R9 BLACK'') None 80 =
     Inr (Some ''12345'', Some ''Rakza 9 Black 2.0mm'', 100, Some ''synonym_match'')"
    using inst[of "''R9 BLACK''"] s1 s2' l2 mem e by simp
  show ?thesis by (intro conjI mem l a b st l' m)
qed

text \<open>
  The claim as stated covers the empty query name. \<open>match_product\<close> tests the name by
  truth, so the empty name counts as absent: with the empty synonym stored and no exact
  match, the synonym index holds a record under the lower-cased name, yet nothing is
  returned.
\<close>

theorem synonym_match_case_insensitive_counterexample:
  "synonym_map ex_blank_cache =
     [([], \<lparr>se_article = Some ''12345'', se_product = Some ''Rakza 9 Black 2.0mm'',
            se_score = 100\<rparr>)] \<and>
   lower [] = [] \<and>
   exact_article_strategy ex_fuzz ex_blank_cache (Some []) None = Inr None \<and>
   exact_product_strategy ex_blank_cache (Some []) = Inr None \<and>
   match_product ex_fuzz ex_blank_cache (Some []) None 80 = Inr (None, None, 0, None)"
  by code_simp

text \<open>
  Claim C5. In every refreshed cache in which one exact name maps to two or more
  articles, \<open>match_product\<close> with that name (no exact article match applying) is a
  function of the cache and the name alone and returns the first article listed under
  the name, which is the article of the first catalogue row of that name. The entries
  compared have the query's own name, so no later article can score higher than the
  first; the method is \<open>exact_product_first\<close> when the name has no tokens (the case in
  which no similarity exceeds 0.5) and \<open>exact_product_token_disambiguated\<close> otherwise.
\<close>

theorem exact_name_first_code:
  assumes "c = refresh loads now products_data db_products c_old"
      and "get_articles_by_product c name = a0 # a1 # rest"
      and "exact_article_strategy fz c (Some name) input_article = Inr None"
  shows "match_product fz c (Some name) input_article threshold =
           Inr (Some a0, Some name, 100,
                Some (if extract_tokens name = {} then ''exact_product_first''
                      else ''exact_product_token_disambiguated'')) \<and>
         a0 # a1 # rest = map fst (filter (\<lambda>an. snd an = name) (valid_rows products_data))"
proof -
  have inv: "cache_inv c" using assms(1) by (simp add: cache_inv_refresh)
  have "a0 \<in> set (get_articles_by_product c name)" using assms(2) by simp
  from cache_inv_articles[OF inv this] have ne: "a0 \<noteq> []" "name \<noteq> []" by simp_all
  have ch: "choose_best_article_by_tokens c name (a0 # a1 # rest) =
           (if extract_tokens name = {} then None else Some a0)"
    using choose_best_article_first[OF inv assms(2)] .
  have s2: "exact_product_strategy c (Some name) =
      Inr (Some (Some a0, Some name, 100,
                Some (if extract_tokens name = {} then ''exact_product_first''
                      else ''exact_product_token_disambiguated'')))"
    using ne by (simp add: exact_product_strategy_def assms(2) ch truthy_def index0_def)
  have "match_product fz c (Some name) input_article threshold =
           Inr (Some a0, Some name, 100,
                Some (if extract_tokens name = {} then ''exact_product_first''
                      else ''exact_product_token_disambiguated''))"
    by (simp add: match_product_def or_else_def assms(3) s2)
  moreover have "a0 # a1 # rest = map fst (filter (\<lambda>an. snd an = name) (valid_rows products_data))"
    using assms(1,2) by (simp add: get_articles_refresh)
  ultimately show ?thesis by simp
qed

theorem exact_name_first_code_witness:
  "get_articles_by_product ex_dup_cache ''Rakza 9 Black 2.0mm'' = [''12345'', ''12347''] \<and>
   match_product ex_fuzz ex_dup_cache (Some ''Rakza 9 Black 2.0mm'') None 80 =
     Inr (Some ''12345'', Some ''Rakza 9 Black 2.0mm'', 100, Some ''exact_product_token_disambiguated'') \<and>
   get_articles_by_product ex_dup_cache ''Tenergy 05'' = [''12348'', ''12349''] \<and>
   match_product ex_fuzz ex_dup_cache (Some ''Tenergy 05'') None 80 =
     Inr (Some ''12348'', Some ''Tenergy 05'', 100, Some ''exact_product_first'')"
proof -
  have a: "get_articles_by_product ex_dup_cache ''Rakza 9 Black 2.0mm'' = [''12345'', ''12347'']"
    by code_simp
  have b: "get_articles_by_product ex_dup_cache ''Tenergy 05'' = [''12348'', ''12349'']"
    by code_simp
  have s: "exact_article_strategy ex_fuzz ex_dup_cache (Some name) None = Inr None" for name
    by (simp add: exact_article_strategy_def truthy_def)
  have ta: "extract_tokens ''Rakza 9 Black 2.0mm'' \<noteq> {}" by code_simp
  have tb: "extract_tokens ''Tenergy 05'' = {}" by code_simp
  from exact_name_first_code[OF ex_dup_cache_def a s, of 80]
       exact_name_first_code[OF ex_dup_cache_def b s, of 80] a b ta tb
  show ?thesis by simp
qed

text \<open>
  Claim C2, as amended. Every observation of a strong fuzzy match (non-empty input
  text, non-empty resolved article, score from 85 to 99) appends one pending
  suggestion, whether or not an equal one is pending: after two observations with the
  same arguments the list has grown by two suggestions for that pair, which differ in
  their time stamps at most.
\<close>

theorem repeated_observation_appends_twice:
  assumes "match_product fz c (Some name) input_article threshold = Inr (Some a, p, score, m)"
      and "name \<noteq> []" and "a \<noteq> []" and "85 \<le> score" and "score < 100"
  shows "\<exists>mgr1 mgr2.
           fuzzy_match_product fz c now mgr (Some name) input_article threshold =
             Inr ((Some a, p, score, m), mgr1) \<and>
           fuzzy_match_product fz c now' mgr1 (Some name) input_article threshold =
             Inr ((Some a, p, score, m), mgr2) \<and>
           pending_synonyms mgr2 = pending_synonyms mgr @
             [\<lparr>sg_synonym = name, sg_article = a, sg_product = p, sg_score = score,
               sg_suggested_at = now, sg_status = ''pending''\<rparr>,
              \<lparr>sg_synonym = name, sg_article = a, sg_product = p, sg_score = score,
               sg_suggested_at = now', sg_status = ''pending''\<rparr>] \<and>
           length (filter (\<lambda>s. sg_synonym s = name \<and> sg_article s = a) (pending_synonyms mgr2)) =
             length (filter (\<lambda>s. sg_synonym s = name \<and> sg_article s = a) (pending_synonyms mgr)) + 2"
proof -
  from fuzzy_match_product_strong[OF assms, of now mgr]
  obtain mgr1 where 1: "fuzzy_match_product fz c now mgr (Some name) input_article threshold =
                  Inr ((Some a, p, score, m), mgr1)"
    and p1: "pending_synonyms mgr1 = pending_synonyms mgr @
                 [\<lparr>sg_synonym = name, sg_article = a, sg_product = p, sg_score = score,
                   sg_suggested_at = now, sg_status = ''pending''\<rparr>]"
    by blast
  from fuzzy_match_product_strong[OF assms, of now' mgr1]
  obtain mgr2 where 2: "fuzzy_match_product fz c now' mgr1 (Some name) input_article threshold =
                  Inr ((Some a, p, score, m), mgr2)"
    and p2: "pending_synonyms mgr2 = pending_synonyms mgr1 @
                 [\<lparr>sg_synonym = name, sg_article = a, sg_product = p, sg_score = score,
                   sg_suggested_at = now', sg_status = ''pending''\<rparr>]"
    by blast
  show ?thesis
    by (intro exI[of _ mgr1] exI[of _ mgr2] conjI 1 2) (simp_all add: p1 p2)
qed

theorem repeated_observation_appends_twice_witness:
  "match_product ex_blak_fuzz ex_cache (Some ''Rakza 9 Blak 2.0mm'') None 80 =
     Inr (Some ''12345'', Some ''Rakza 9 Black 2.0mm'', 97, Some ''fuzzy_product_token_enhanced'') \<and>
   (\<exists>mgr1 mgr2.
      fuzzy_match_product ex_blak_fuzz ex_cache 0 ex_mgr0 (Some ''Rakza 9 Blak 2.0mm'') None 80 =
        Inr ((Some ''12345'', Some ''Rakza 9 Black 2.0mm'', 97, Some ''fuzzy_product_token_enhanced''), mgr1) \<and>
      fuzzy_match_product ex_blak_fuzz ex_cache 1 mgr1 (Some ''Rakza 9 Blak 2.0mm'') None 80 =
        Inr ((Some ''12345'', Some ''Rakza 9 Black 2.0mm'', 97, Some ''fuzzy_product_token_enhanced''), mgr2) \<and>
      pending_synonyms mgr2 = pending_synonyms ex_mgr0 @
        [\<lparr>sg_synonym = ''Rakza 9 Blak 2.0mm'', sg_article = ''12345'',
          sg_product = Some ''Rakza 9 Black 2.0mm'', sg_score = 97,
          sg_suggested_at = 0, sg_status = ''pending''\<rparr>,
         \<lparr>sg_synonym = ''Rakza 9 Blak 2.0mm'', sg_article = ''12345'',
          sg_product = Some ''Rakza 9 Black 2.0mm'', sg_score = 97,
          sg_suggested_at = 1, sg_status = ''pending''\<rparr>] \<and>
      length (filter (\<lambda>s. sg_synonym s = ''Rakza 9 Blak 2.0mm'' \<and> sg_article s = ''12345'')
                (pending_synonyms mgr2)) =
        length (filter (\<lambda>s. sg_synonym s = ''Rakza 9 Blak 2.0mm'' \<and> sg_article s = ''12345'')
                  (pending_synonyms ex_mgr0)) + 2)"
proof (rule conjI)
  show m: "match_product ex_blak_fuzz ex_cache (Some ''Rakza 9 Blak 2.0mm'') None 80 =
     Inr (Some ''12345'', Some ''Rakza 9 Black 2.0mm'', 97, Some ''fuzzy_product_token_enhanced'')"
    by code_simp
  show "\<exists>mgr1 mgr2.
      fuzzy_match_product ex_blak_fuzz ex_cache 0 ex_mgr0 (Some ''Rakza 9 Blak 2.0mm'') None 80 =
        Inr ((Some ''12345'', Some ''Rakza 9 Black 2.0mm'', 97, Some ''fuzzy_product_token_enhanced''), mgr1) \<and>
      fuzzy_match_product ex_blak_fuzz ex_cache 1 mgr1 (Some ''Rakza 9 Blak 2.0mm'') None 80 =
        Inr ((Some ''12345'', Some ''Rakza 9 Black 2.0mm'', 97, Some ''fuzzy_product_token_enhanced''), mgr2) \<and>
      pending_synonyms mgr2 = pending_synonyms ex_mgr0 @
        [\<lparr>sg_synonym = ''Rakza 9 Blak 2.0mm'', sg_article = ''12345'',
          sg_product = Some ''Rakza 9 Black 2.0mm'', sg_score = 97,
          sg_suggested_at = 0, sg_status = ''pending''\<rparr>,
         \<lparr>sg_synonym = ''Rakza 9 Blak 2.0mm'', sg_article = ''12345'',
          sg_product = Some ''Rakza 9 Black 2.0mm'', sg_score = 97,
          sg_suggested_at = 1, sg_status = ''pending''\<rparr>] \<and>
      length (filter (\<lambda>s. sg_synonym s = ''Rakza 9 Blak 2.0mm'' \<and> sg_article s = ''12345'')
                (pending_synonyms mgr2)) =
        length (filter (\<lambda>s. sg_synonym s = ''Rakza 9 Blak 2.0mm'' \<and> sg_article s = ''12345'')
                  (pending_synonyms ex_mgr0)) + 2"
    by (rule repeated_observation_appends_twice[OF m]) simp_all
qed

text \<open>
  The claim as stated has one suggestion for the pair after the second observation.
  \<open>suggest_synonym\<close> appends without looking at the list: there are two.
\<close>

theorem repeated_observation_counterexample:
  "fuzzy_match_product ex_blak_fuzz ex_cache 0 ex_mgr0 (Some ''Rakza 9 Blak 2.0mm'') None 80 =
     Inr ((Some ''12345'', Some ''Rakza 9 Black 2.0mm'', 97, Some ''fuzzy_product_token_enhanced''),
          ex_mgr0\<lparr>pending_synonyms := [ex_blak_suggestion]\<rparr>) \<and>
   fuzzy_match_product ex_blak_fuzz ex_cache 0 (ex_mgr0\<lparr>pending_synonyms := [ex_blak_suggestion]\<rparr>)
       (Some ''Rakza 9 Blak 2.0mm'') None 80 =
     Inr ((Some ''12345'', Some ''Rakza 9 Black 2.0mm'', 97, Some ''fuzzy_product_token_enhanced''),
          ex_mgr0\<lparr>pending_synonyms := [ex_blak_suggestion, ex_blak_suggestion]\<rparr>) \<and>
   length (filter (\<lambda>s. sg_synonym s = ''Rakza 9 Blak 2.0mm'' \<and> sg_article s = ''12345'')
             [ex_blak_suggestion, ex_blak_suggestion]) = 2"
  by code_simp

text \<open>
  Claim C1, as amended. In strategy 5, with two or more candidates at or above the
  threshold (fuzzy scores up to 100), the combined score of a candidate is 0.7 times
  its fuzzy score plus 0.3 times 100 times the token similarity of query and candidate
  name, computed in double-precision floating point as the source writes it. Whenever
  the combined score of some candidate exceeds the fuzzy score of the candidate ranked
  first, \<open>match_product\<close> (no earlier strategy applying, in a refreshed cache) returns
  the candidate whose combined score is maximal, the first such in fuzzy rank, with an
  article listed under its name; the returned score is that combined score truncated
  to an integer. The case in which no combined score exceeds the fuzzy score of the
  first candidate is left out of the statement.
\<close>

theorem fuzzy_name_token_enhanced_max:
  assumes "c = refresh loads now products_data db_products c_old"
      and "name \<noteq> []"
      and "exact_article_strategy fz c (Some name) input_article = Inr None"
      and "exact_product_strategy c (Some name) = Inr None"
      and "synonym_strategy c (Some name) = Inr None"
      and "fuzzy_article_strategy fz c input_article = Inr None"
      and "valid_matches_of fz c name threshold = m0 # m1 # ms"
      and "\<forall>m \<in> set (m0 # m1 # ms). snd m \<le> 100"
      and "\<exists>m \<in> set (m0 # m1 # ms).
             combined_score (extract_tokens name) m > real_of_int (snd m0)"
  shows "\<exists>ys w zs article.
           m0 # m1 # ms = ys @ w # zs \<and>
           (\<forall>m \<in> set ys. combined_score (extract_tokens name) m
                            < combined_score (extract_tokens name) w) \<and>
           (\<forall>m \<in> set zs. combined_score (extract_tokens name) m
                            \<le> combined_score (extract_tokens name) w) \<and>
           combined_score (extract_tokens name) w =
             py_float (py_float (py_float (of_int (snd w)) * py_float 0.7) +
                       py_float (py_float (py_float (token_similarity (extract_tokens name)
                                                       (extract_tokens (fst w)))
                                           * py_float 100) * py_float 0.3)) \<and>
           article \<in> set (get_articles_by_product c (fst w)) \<and>
           match_product fz c (Some name) input_article threshold =
             Inr (Some article, Some (fst w), py_int (combined_score (extract_tokens name) w),
                  Some ''fuzzy_product_token_enhanced'')"
proof -
  let ?T = "extract_tokens name"
  have inv: "cache_inv c" using assms(1) by (simp add: cache_inv_refresh)
  from enhance_with_tokens_max[OF assms(9), of "get_all_products c"]
  obtain ys w zs where w: "m0 # m1 # ms = ys @ w # zs"
      "\<forall>m \<in> set ys. combined_score ?T m < combined_score ?T w"
      "\<forall>m \<in> set zs. combined_score ?T m \<le> combined_score ?T w"
      "enhance_with_tokens name (m0 # m1 # ms) (get_all_products c) =
         Inr (fst w, py_int (combined_score ?T w))"
    by blast
  have "w \<in> set (valid_matches_of fz c name threshold)"
    unfolding assms(7) w(1) by simp
  from valid_matches_names[OF this] have "fst w \<in> pe_name ` set (all_products c)"
    by (simp add: get_all_products_def)
  with cache_inv_names[OF inv, of "fst w"]
  have ne: "get_articles_by_product c (fst w) \<noteq> []" by simp
  from pick_article[OF ne, of c name]
  obtain article where a: "article \<in> set (get_articles_by_product c (fst w))"
      "(if length (get_articles_by_product c (fst w)) > 1
        then (case truthy (choose_best_article_by_tokens c name (get_articles_by_product c (fst w))) of
                Some best_article \<Rightarrow> Inr best_article
              | None \<Rightarrow> index0 (get_articles_by_product c (fst w)))
        else index0 (get_articles_by_product c (fst w))) = (Inr article :: py_error + string)"
    by blast
  have s5: "fuzzy_product_strategy fz c (Some name) threshold =
      Inr (Some (Some article, Some (fst w), py_int (combined_score ?T w),
                 Some ''fuzzy_product_token_enhanced''))"
    unfolding fuzzy_product_strategy_alt
    using assms(2) ne a(2) by (simp add: truthy_def assms(7) w(4) Let_def)
  have mp: "match_product fz c (Some name) input_article threshold =
      Inr (Some article, Some (fst w), py_int (combined_score ?T w),
           Some ''fuzzy_product_token_enhanced'')"
    by (simp add: match_product_def or_else_def assms(3-6) s5)
  have cs: "combined_score ?T w =
             py_float (py_float (py_float (of_int (snd w)) * py_float 0.7) +
                       py_float (py_float (py_float (token_similarity ?T (extract_tokens (fst w)))
                                           * py_float 100) * py_float 0.3))"
    by (simp add: combined_score_def Let_def)
  show ?thesis
    by (intro exI[of _ ys] exI[of _ w] exI[of _ zs] exI[of _ article] conjI w(1-3) cs a(1) mp)
qed

theorem fuzzy_name_token_enhanced_max_witness:
  "valid_matches_of ex_grey_fuzz ex_trunc_cache ''Rakza 9 Grey 2.0mm'' 80 =
     [(''Rakza 9 Grey 2.0'', 94), (''Rakza 8 Grey 2.0mm'', 94)] \<and>
   combined_score (extract_tokens ''Rakza 9 Grey 2.0mm'') (''Rakza 8 Grey 2.0mm'', 94) =
     6741325692220211 / 70368744177664 \<and>
   (\<exists>ys w zs article.
      [(''Rakza 9 Grey 2.0'', 94), (''Rakza 8 Grey 2.0mm'', 94)] = ys @ w # zs \<and>
      (\<forall>m \<in> set ys. combined_score (extract_tokens ''Rakza 9 Grey 2.0mm'') m
                       < combined_score (extract_tokens ''Rakza 9 Grey 2.0mm'') w) \<and>
      (\<forall>m \<in> set zs. combined_score (extract_tokens ''Rakza 9 Grey 2.0mm'') m
                       \<le> combined_score (extract_tokens ''Rakza 9 Grey 2.0mm'') w) \<and>
      combined_score (extract_tokens ''Rakza 9 Grey 2.0mm'') w =
        py_float (py_float (py_float (of_int (snd w)) * py_float 0.7) +
                  py_float (py_float (py_float (token_similarity
                                                  (extract_tokens ''Rakza 9 Grey 2.0mm'')
                                                  (extract_tokens (fst w)))
                                      * py_float 100) * py_float 0.3)) \<and>
      article \<in> set (get_articles_by_product ex_trunc_cache (fst w)) \<and>
      match_product ex_grey_fuzz ex_trunc_cache (Some ''Rakza 9 Grey 2.0mm'') None 80 =
        Inr (Some article, Some (fst w),
             py_int (combined_score (extract_tokens ''Rakza 9 Grey 2.0mm'') w),
             Some ''fuzzy_product_token_enhanced''))"
proof (intro conjI)
  show vm: "valid_matches_of ex_grey_fuzz ex_trunc_cache ''Rakza 9 Grey 2.0mm'' 80 =
     [(''Rakza 9 Grey 2.0'', 94), (''Rakza 8 Grey 2.0mm'', 94)]"
    by code_simp
  show cb: "combined_score (extract_tokens ''Rakza 9 Grey 2.0mm'') (''Rakza 8 Grey 2.0mm'', 94) =
     6741325692220211 / 70368744177664"
    by code_simp
  have s1: "exact_article_strategy ex_grey_fuzz ex_trunc_cache (Some ''Rakza 9 Grey 2.0mm'') None = Inr None"
    by code_simp
  have s2: "exact_product_strategy ex_trunc_cache (Some ''Rakza 9 Grey 2.0mm'') = Inr None"
    by code_simp
  have s3: "synonym_strategy ex_trunc_cache (Some ''Rakza 9 Grey 2.0mm'') = Inr None"
    by code_simp
  have s4: "fuzzy_article_strategy ex_grey_fuzz ex_trunc_cache None = Inr None"
    by code_simp
  have bd: "\<forall>m \<in> set [(''Rakza 9 Grey 2.0'', 94::int), (''Rakza 8 Grey 2.0mm'', 94)]. snd m \<le> 100"
    by simp
  have ex: "\<exists>m \<in> set [(''Rakza 9 Grey 2.0'', 94), (''Rakza 8 Grey 2.0mm'', 94)].
      combined_score (extract_tokens ''Rakza 9 Grey 2.0mm'') m
        > real_of_int (snd (''Rakza 9 Grey 2.0'', 94::int))"
    using cb by simp
  show "\<exists>ys w zs article.
      [(''Rakza 9 Grey 2.0'', 94), (''Rakza 8 Grey 2.0mm'', 94)] = ys @ w # zs \<and>
      (\<forall>m \<in> set ys. combined_score (extract_tokens ''Rakza 9 Grey 2.0mm'') m
                       < combined_score (extract_tokens ''Rakza 9 Grey 2.0mm'') w) \<and>
      (\<forall>m \<in> set zs. combined_score (extract_tokens ''Rakza 9 Grey 2.0mm'') m
                       \<le> combined_score (extract_tokens ''Rakza 9 Grey 2.0mm'') w) \<and>
      combined_score (extract_tokens ''Rakza 9 Grey 2.0mm'') w =
        py_float (py_float (py_float (of_int (snd w)) * py_float 0.7) +
                  py_float (py_float (py_float (token_similarity
                                                  (extract_tokens ''Rakza 9 Grey 2.0mm'')
                                                  (extract_tokens (fst w)))
                                      * py_float 100) * py_float 0.3)) \<and>
      article \<in> set (get_articles_by_product ex_trunc_cache (fst w)) \<and>
      match_product ex_grey_fuzz ex_trunc_cache (Some ''Rakza 9 Grey 2.0mm'') None 80 =
        Inr (Some article, Some (fst w),
             py_int (combined_score (extract_tokens ''Rakza 9 Grey 2.0mm'') w),
             Some ''fuzzy_product_token_enhanced'')"
    by (rule fuzzy_name_token_enhanced_max[OF ex_trunc_cache_def _ s1 s2 s3 s4 vm bd ex]) simp
qed

text \<open>
  The claim as stated fails at two inputs. In the first catalogue the second candidate
  wins with the combined score 95.8 (the double next to it); the returned score is 95,
  the truncation by \<open>int()\<close>, while rounding gives 96. In the second catalogue the
  combined scores are 75.8 for the candidate ranked first and 93 for the other one,
  and the candidate ranked first is returned with its fuzzy score 94: the running best
  starts at the fuzzy score of the first candidate, not at its combined score, and 93
  does not exceed 94.
\<close>

theorem fuzzy_name_token_enhanced_counterexample:
  "valid_matches_of ex_grey_fuzz ex_trunc_cache ''Rakza 9 Grey 2.0mm'' 80 =
     [(''Rakza 9 Grey 2.0'', 94), (''Rakza 8 Grey 2.0mm'', 94)] \<and>
   combined_score (extract_tokens ''Rakza 9 Grey 2.0mm'') (''Rakza 9 Grey 2.0'', 94) =
     5685794529555251 / 70368744177664 \<and>
   combined_score (extract_tokens ''Rakza 9 Grey 2.0mm'') (''Rakza 8 Grey 2.0mm'', 94) =
     6741325692220211 / 70368744177664 \<and>
   round (6741325692220211 / 70368744177664 :: real) = 96 \<and>
   match_product ex_grey_fuzz ex_trunc_cache (Some ''Rakza 9 Grey 2.0mm'') None 80 =
     Inr (Some ''12346'', Some ''Rakza 8 Grey 2.0mm'', 95, Some ''fuzzy_product_token_enhanced'') \<and>
   valid_matches_of ex_grey_fuzz ex_rank_cache ''Rakza 9 Grey 2.0mm'' 80 =
     [(''Rakza 9 Gray 2.0mm'', 94), (''Rakza 9 Grey 2.0mm Max'', 90)] \<and>
   combined_score (extract_tokens ''Rakza 9 Grey 2.0mm'') (''Rakza 9 Gray 2.0mm'', 94) =
     5333950808666931 / 70368744177664 \<and>
   combined_score (extract_tokens ''Rakza 9 Grey 2.0mm'') (''Rakza 9 Grey 2.0mm Max'', 90) = 93 \<and>
   match_product ex_grey_fuzz ex_rank_cache (Some ''Rakza 9 Grey 2.0mm'') None 80 =
     Inr (Some ''12345'', Some ''Rakza 9 Gray 2.0mm'', 94, Some ''fuzzy_product_token_enhanced'')"
proof -
  have 1: "valid_matches_of ex_grey_fuzz ex_trunc_cache ''Rakza 9 Grey 2.0mm'' 80 =
     [(''Rakza 9 Grey 2.0'', 94), (''Rakza 8 Grey 2.0mm'', 94)]"
    by code_simp
  have 2: "combined_score (extract_tokens ''Rakza 9 Grey 2.0mm'') (''Rakza 9 Grey 2.0'', 94) =
     5685794529555251 / 70368744177664"
    by code_simp
  have 3: "combined_score (extract_tokens ''Rakza 9 Grey 2.0mm'') (''Rakza 8 Grey 2.0mm'', 94) =
     6741325692220211 / 70368744177664"
    by code_simp
  have 4: "round (6741325692220211 / 70368744177664 :: real) = 96"
    by code_simp
  have 5: "match_product ex_grey_fuzz ex_trunc_cache (Some ''Rakza 9 Grey 2.0mm'') None 80 =
     Inr (Some ''12346'', Some ''Rakza 8 Grey 2.0mm'', 95, Some ''fuzzy_product_token_enhanced'')"
    by code_simp
  have 6: "valid_matches_of ex_grey_fuzz ex_rank_cache ''Rakza 9 Grey 2.0mm'' 80 =
     [(''Rakza 9 Gray 2.0mm'', 94), (''Rakza 9 Grey 2.0mm Max'', 90)]"
    by code_simp
  have 7: "combined_score (extract_tokens ''Rakza 9 Grey 2.0mm'') (''Rakza 9 Gray 2.0mm'', 94) =
     5333950808666931 / 70368744177664"
    by code_simp
  have 8: "combined_score (extract_tokens ''Rakza 9 Grey 2.0mm'') (''Rakza 9 Grey 2.0mm Max'', 90) = 93"
    by code_simp
  have 9: "match_product ex_grey_fuzz ex_rank_cache (Some ''Rakza 9 Grey 2.0mm'') None 80 =
     Inr (Some ''12345'', Some ''Rakza 9 Gray 2.0mm'', 94, Some ''fuzzy_product_token_enhanced'')"
    by code_simp
  show ?thesis by (intro conjI 1 2 3 4 5 6 7 8 9)
qed

end
